theory Spec2Isabelle
  imports Main "HOL-Library.Word" "HOL-Library.While_Combinator"
begin

unbundle bit_operations_syntax

section \<open>JavaScript numbers and operators\<close>

text \<open>
  The simulator computes with JavaScript numbers. Every number the program handles is an
  integer (operands come from \<^verbatim>\<open>parseInt\<close>, results from \<open>+\<close>, \<open>-\<close>, \<open>*\<close>,
  \<^verbatim>\<open>Math.floor\<close> and the bitwise operators), so a number is modelled as an \<open>int\<close>.
  The model agrees with the doubles of the source while magnitudes stay below \<open>2^53\<close>.
  The bitwise operators first convert their operands to 32 bits (ToInt32, ToUint32);
  that conversion is written out.
\<close>

definition toInt32 :: "int \<Rightarrow> int" where
  "toInt32 x = (let m = x mod 4294967296 in if 2147483648 \<le> m then m - 4294967296 else m)"

definition toUint32 :: "int \<Rightarrow> int" where
  "toUint32 x = x mod 4294967296"

definition js_and :: "int \<Rightarrow> int \<Rightarrow> int" where
  "js_and a b = toInt32 a AND toInt32 b"

definition js_or :: "int \<Rightarrow> int \<Rightarrow> int" where
  "js_or a b = toInt32 a OR toInt32 b"

definition js_xor :: "int \<Rightarrow> int \<Rightarrow> int" where
  "js_xor a b = toInt32 a XOR toInt32 b"

definition js_not :: "int \<Rightarrow> int" where
  "js_not a = NOT (toInt32 a)"

definition js_shl :: "int \<Rightarrow> int \<Rightarrow> int" where
  "js_shl a n = toInt32 (toInt32 a * 2 ^ nat (n mod 32))"

definition js_shr :: "int \<Rightarrow> int \<Rightarrow> int" where
  "js_shr a n = toUint32 a div 2 ^ nat (n mod 32)"

text \<open>\<open>a % b\<close> truncates towards zero: the result has the sign of the dividend.\<close>

definition js_rem :: "int \<Rightarrow> int \<Rightarrow> int" where
  "js_rem a b = sgn a * (\<bar>a\<bar> mod \<bar>b\<bar>)"

text \<open>\<open>x & 0xffff\<close>, the mask the source applies to register and memory values.\<close>

definition mask16 :: "int \<Rightarrow> int" where
  "mask16 x = js_and x 65535"

section \<open>Strings\<close>

text \<open>
  Source strings are modelled as \<open>string\<close>; characters beyond Latin-1 are outside the
  model. \<open>is_space\<close> is the class \<open>\s\<close> of the source's regular expressions (which is
  also what \<^verbatim>\<open>trim\<close> strips) restricted to Latin-1: tab, line feed, vertical tab,
  form feed, carriage return, space and no-break space.
\<close>

definition is_space :: "char \<Rightarrow> bool" where
  "is_space c = (c \<in> set [CHR 0x09, CHR 0x0A, CHR 0x0B, CHR 0x0C, CHR 0x0D, CHR 0x20, CHR 0xA0])"

definition is_digit :: "char \<Rightarrow> bool" where
  "is_digit c = (c \<in> set ''0123456789'')"

definition is_hex_digit :: "char \<Rightarrow> bool" where
  "is_hex_digit c = (c \<in> set ''0123456789ABCDEFabcdef'')"

definition is_word_char :: "char \<Rightarrow> bool" where
  "is_word_char c =
     (c \<in> set ''abcdefghijklmnopqrstuvwxyzABCDEFGHIJKLMNOPQRSTUVWXYZ0123456789_'')"

text \<open>
  The value of a decimal or hexadecimal digit: its position among the sixteen digits,
  in either case of the letters.
\<close>

definition digit_value :: "char \<Rightarrow> int" where
  "digit_value c =
     int (min (length (takeWhile (\<lambda>d. d \<noteq> c) ''0123456789abcdef''))
              (length (takeWhile (\<lambda>d. d \<noteq> c) ''0123456789ABCDEF'')))"

text \<open>\<^verbatim>\<open>parseInt(digits, radix)\<close> on a string already known to hold only digits.\<close>

definition parse_digits :: "int \<Rightarrow> string \<Rightarrow> int" where
  "parse_digits radix ds = foldl (\<lambda>acc c. acc * radix + digit_value c) 0 ds"

fun upper_char :: "char \<Rightarrow> char" where
  "upper_char c =
     (case map_of (zip ''abcdefghijklmnopqrstuvwxyz'' ''ABCDEFGHIJKLMNOPQRSTUVWXYZ'') c of
        Some u \<Rightarrow> u | None \<Rightarrow> c)"

text \<open>
  \<^verbatim>\<open>toUpperCase\<close>, on the letters a to z. JavaScript also maps the other lower-case
  letters of Latin-1; none of their images occurs in an opcode or operation name, so
  the comparisons with those names come out the same.
\<close>

definition toUpperCase :: "string \<Rightarrow> string" where
  "toUpperCase s = map upper_char s"

definition trim :: "string \<Rightarrow> string" where
  "trim s = rev (dropWhile is_space (rev (dropWhile is_space s)))"

text \<open>
  \<^verbatim>\<open>s.split(sep)\<close> for a separator that is one character of a class: the pieces
  between separators, empty pieces included.
\<close>

fun split_on :: "(char \<Rightarrow> bool) \<Rightarrow> string \<Rightarrow> string list" where
  "split_on p [] = [[]]"
| "split_on p (c # cs) =
     (if p c then [] # split_on p cs
      else (case split_on p cs of [] \<Rightarrow> [[c]] | w # ws \<Rightarrow> (c # w) # ws))"

text \<open>
  \<^verbatim>\<open>instruction.split(/[\s,]+/).filter((p) => p)\<close>: splitting on runs of separators
  and dropping the empty pieces gives the same pieces as splitting on every separator
  and dropping the empty pieces.
\<close>

definition split_parts :: "string \<Rightarrow> string list" where
  "split_parts s = filter (\<lambda>p. p \<noteq> []) (split_on (\<lambda>c. is_space c \<or> c = CHR '','') s)"

text \<open>\<^verbatim>\<open>parts[i]\<close>: \<open>None\<close> is JavaScript's \<^verbatim>\<open>undefined\<close>.\<close>

definition part :: "string list \<Rightarrow> nat \<Rightarrow> string option" where
  "part parts i = (if i < length parts then Some (parts ! i) else None)"

text \<open>The regular expressions \<^verbatim>\<open>/^R\d$/i\<close>, \<^verbatim>\<open>/^0x[0-9A-Fa-f]+$/\<close> and \<^verbatim>\<open>/^-?\d+$/\<close>.\<close>

fun matches_register :: "string \<Rightarrow> bool" where
  "matches_register [r, d] = ((r = CHR ''R'' \<or> r = CHR ''r'') \<and> is_digit d)"
| "matches_register _ = False"

fun matches_hex :: "string \<Rightarrow> bool" where
  "matches_hex (z # x # ds) = (z = CHR ''0'' \<and> x = CHR ''x'' \<and> ds \<noteq> [] \<and> list_all is_hex_digit ds)"
| "matches_hex _ = False"

fun matches_decimal :: "string \<Rightarrow> bool" where
  "matches_decimal [] = False"
| "matches_decimal (c # cs) =
     (if c = CHR ''-'' then cs \<noteq> [] \<and> list_all is_digit cs else list_all is_digit (c # cs))"

section \<open>The Compute Unit (src/gpu/gpu.ts)\<close>

text \<open>
  \<open>GPU_CORE_COUNT = 8\<close> and \<open>VRAM_SIZE = 128\<close> (gpu/types.ts). A lane is a \<open>GPUCore\<close>.
  The fields \<open>id\<close>, \<open>busy\<close>, \<open>currentOp\<close> of a core and \<open>length\<close> of the unit carry a
  prefix or suffix, since the names are taken.

  \<open>vram\<close> is a JavaScript array indexed with \<open>(addr + i) % VRAM_SIZE\<close>. The remainder
  of a negative address is negative, and an array stores a value written at a negative
  index as a property that later reads find again, so \<open>vram\<close> is a partial map on \<open>int\<close>:
  the cells \<open>0..127\<close> are defined from reset, and \<open>vram[i] ?? 0\<close> reads 0 elsewhere.

  The unit's event emissions only inform listeners and change nothing in the unit;
  they are left out, and with them the micro-operation records the methods return.
\<close>

record GPUCore =
  core_id :: nat
  core_busy :: bool
  core_currentOp :: string
  inputA :: int
  inputB :: int
  core_output :: int

record GPU =
  vram :: "int \<rightharpoonup> int"
  cores :: "GPUCore list"
  busy :: bool
  currentOp :: "string option"
  cyclesRemaining :: int
  srcAddr :: int
  dstAddr :: int
  length_g :: int
  scalar :: int
  result :: int
  currentCoreIndex :: int

definition GPU_CORE_COUNT :: nat where
  "GPU_CORE_COUNT = 8"

definition VRAM_SIZE :: int where
  "VRAM_SIZE = 128"

definition idle_core :: "nat \<Rightarrow> GPUCore" where
  "idle_core i = \<lparr>core_id = i, core_busy = False, core_currentOp = [], inputA = 0, inputB = 0,
     core_output = 0\<rparr>"

definition gpu_reset :: "GPU" where
  "gpu_reset = \<lparr>vram = (\<lambda>i. if 0 \<le> i \<and> i < VRAM_SIZE then Some 0 else None),
     cores = map idle_core [0..<GPU_CORE_COUNT], busy = False, currentOp = None,
     cyclesRemaining = 0, srcAddr = 0, dstAddr = 0, length_g = 0, scalar = 0, result = 0,
     currentCoreIndex = 0\<rparr>"

text \<open>\<^verbatim>\<open>this.vram[i] ?? 0\<close>\<close>

definition read_cell :: "(int \<rightharpoonup> int) \<Rightarrow> int \<Rightarrow> int" where
  "read_cell v i = (case v i of Some x \<Rightarrow> x | None \<Rightarrow> 0)"

definition isBusy :: "GPU \<Rightarrow> bool" where
  "isBusy g = busy g"

definition getResult :: "GPU \<Rightarrow> int" where
  "getResult g = result g"

text \<open>
  \<open>loadToVRAM\<close> and \<open>storeFromVRAM\<close>: the loop \<^verbatim>\<open>for (i = 0; i < length; i++)\<close>
  runs \<open>nat length\<close> times (not at all for a negative length). The primary memory is
  the CPU's array of 256 cells, always indexed through \<open>& 0xff\<close>: a function on 8-bit
  addresses.
\<close>

definition loadToVRAM :: "(8 word \<Rightarrow> int) \<Rightarrow> int \<Rightarrow> int \<Rightarrow> int \<Rightarrow> GPU \<Rightarrow> GPU" where
  "loadToVRAM cpuMemory cpuAddr vramAddr len g =
     fold (\<lambda>i g'. let srcIdx = (word_of_int (cpuAddr + int i) :: 8 word);
                      dstIdx = js_rem (vramAddr + int i) VRAM_SIZE
                  in g'\<lparr>vram := (vram g')(dstIdx \<mapsto> cpuMemory srcIdx)\<rparr>)
          [0..<nat len] g"

definition storeFromVRAM :: "(8 word \<Rightarrow> int) \<Rightarrow> int \<Rightarrow> int \<Rightarrow> int \<Rightarrow> GPU \<Rightarrow> (8 word \<Rightarrow> int)" where
  "storeFromVRAM cpuMemory vramAddr cpuAddr len g =
     fold (\<lambda>i m. let srcIdx = js_rem (vramAddr + int i) VRAM_SIZE;
                     dstIdx = (word_of_int (cpuAddr + int i) :: 8 word)
                 in m(dstIdx := read_cell (vram g) srcIdx))
          [0..<nat len] cpuMemory"

text \<open>
  \<open>startOperation\<close>: \<^verbatim>\<open>Math.ceil(this.length / GPU_CORE_COUNT)\<close> is \<open>- ((- n) div 8)\<close>.
  The method has no check of \<open>busy\<close> and never throws.
\<close>

definition startOperation :: "string \<Rightarrow> int \<Rightarrow> int \<Rightarrow> int \<Rightarrow> int \<Rightarrow> GPU \<Rightarrow> GPU" where
  "startOperation op src dst len sc g =
     (let n = min len VRAM_SIZE
      in g\<lparr>busy := True, currentOp := Some op, srcAddr := src, dstAddr := dst, length_g := n,
           scalar := sc, result := 0, currentCoreIndex := 0,
           cyclesRemaining := - ((- n) div int GPU_CORE_COUNT),
           cores := map (\<lambda>core. core\<lparr>core_busy := False, core_currentOp := [], inputA := 0,
                                     inputB := 0, core_output := 0\<rparr>) (cores g)\<rparr>)"

text \<open>\<^verbatim>\<open>Math.floor(Math.sqrt(n))\<close> for \<open>n \<ge> 0\<close>, by search from below.\<close>

function isqrt_from :: "nat \<Rightarrow> nat \<Rightarrow> nat" where
  "isqrt_from k n = (if (k + 1) * (k + 1) \<le> n then isqrt_from (k + 1) n else k)"
  by pat_completeness auto
termination
proof (relation "measure (\<lambda>(k, n). n - k)")
  show "wf (measure (\<lambda>(k, n). n - k))" by simp
next
  fix k n :: nat
  assume a: "(k + 1) * (k + 1) \<le> n"
  have "k + 1 \<le> (k + 1) * (k + 1)" by simp
  with a have "k + 1 \<le> n" by linarith
  then show "((k + 1, n), (k, n)) \<in> measure (\<lambda>(k, n). n - k)" by simp
qed

text \<open>
  In the source the square root of a negative cell is NaN, which is not an integer;
  the model has 0 there.
\<close>

definition floor_sqrt :: "int \<Rightarrow> int" where
  "floor_sqrt a = (if a < 0 then 0 else int (isqrt_from 0 (nat a)))"

definition map_core :: "nat \<Rightarrow> (GPUCore \<Rightarrow> GPUCore) \<Rightarrow> GPU \<Rightarrow> GPU" where
  "map_core coreId f g = g\<lparr>cores := (cores g)[coreId := f (cores g ! coreId)]\<rparr>"

definition store_output :: "nat \<Rightarrow> int \<Rightarrow> int \<Rightarrow> GPU \<Rightarrow> GPU" where
  "store_output coreId dstIdx out g =
     (map_core coreId (\<lambda>c. c\<lparr>core_output := out\<rparr>) g)\<lparr>vram := (vram g)(dstIdx \<mapsto> out)\<rparr>"

text \<open>One pass of the body of the lane loop of \<open>cycle\<close>, for the lane \<open>coreId\<close>.\<close>

definition cycle_core :: "string \<Rightarrow> nat \<Rightarrow> int \<Rightarrow> GPU \<Rightarrow> GPU" where
  "cycle_core op coreId elementIndex g0 =
     (let srcIdx = js_rem (srcAddr g0 + elementIndex) VRAM_SIZE;
          dstIdx = js_rem (dstAddr g0 + elementIndex) VRAM_SIZE;
          a = read_cell (vram g0) srcIdx;
          b = (if op \<in> set [''VADD'', ''VSUB'', ''VMUL'', ''VDIV'', ''VDOT'']
               then read_cell (vram g0) dstIdx
               else if op = ''VSCALE'' then scalar g0 else 0);
          g = map_core coreId
                (\<lambda>c. c\<lparr>core_busy := True, core_currentOp := op, inputA := a, inputB := b\<rparr>) g0;
          set_out = (\<lambda>out. map_core coreId (\<lambda>c. c\<lparr>core_output := out\<rparr>) g)
      in if op = ''VADD'' then store_output coreId dstIdx (mask16 (a + b)) g
         else if op = ''VSUB'' then store_output coreId dstIdx (mask16 (a - b)) g
         else if op = ''VMUL'' then store_output coreId dstIdx (mask16 (a * b)) g
         else if op = ''VDIV'' then store_output coreId dstIdx (if b \<noteq> 0 then a div b else 0) g
         else if op = ''VSCALE'' then store_output coreId dstIdx (mask16 (a * scalar g)) g
         else if op = ''VDOT''
           then (set_out (mask16 (a * b)))\<lparr>result := mask16 (result g + mask16 (a * b))\<rparr>
         else if op = ''VSUM'' then (set_out a)\<lparr>result := mask16 (result g + a)\<rparr>
         else if op = ''VMAX''
           then (if elementIndex = 0 \<or> a > result g then (set_out a)\<lparr>result := a\<rparr> else set_out a)
         else if op = ''VMIN''
           then (if elementIndex = 0 \<or> a < result g then (set_out a)\<lparr>result := a\<rparr> else set_out a)
         else if op = ''VABS''
           then store_output coreId dstIdx (if a > 32767 then mask16 (65536 - a) else a) g
         else if op = ''VSQRT'' then store_output coreId dstIdx (floor_sqrt a) g
         else if op = ''VCOPY'' then store_output coreId dstIdx a g
         else g)"

text \<open>
  The lane loop \<^verbatim>\<open>for (coreId = 0; coreId < GPU_CORE_COUNT; coreId++)\<close> with its
  \<^verbatim>\<open>break\<close> at the first lane whose element lies beyond the vector.
\<close>

fun cycle_loop :: "string \<Rightarrow> nat list \<Rightarrow> GPU \<Rightarrow> GPU" where
  "cycle_loop op [] g = g"
| "cycle_loop op (coreId # rest) g =
     (let elementIndex = currentCoreIndex g + int coreId
      in if elementIndex \<ge> length_g g then g
         else cycle_loop op rest (cycle_core op coreId elementIndex g))"

text \<open>
  \<open>cycle\<close>: \<^verbatim>\<open>!this.currentOp\<close> holds for \<^verbatim>\<open>null\<close> and for the empty string.
\<close>

definition cycle :: "GPU \<Rightarrow> GPU" where
  "cycle g =
     (case currentOp g of
        None \<Rightarrow> g
      | Some op \<Rightarrow>
          if \<not> busy g \<or> op = [] then g
          else
            (let g1 = cycle_loop op [0..<GPU_CORE_COUNT] g;
                 g2 = g1\<lparr>currentCoreIndex := currentCoreIndex g1 + int GPU_CORE_COUNT,
                         cyclesRemaining := cyclesRemaining g1 - 1\<rparr>
             in if cyclesRemaining g2 \<le> 0 \<or> currentCoreIndex g2 \<ge> length_g g2
                then g2\<lparr>busy := False, cores := map (\<lambda>core. core\<lparr>core_busy := False\<rparr>) (cores g2)\<rparr>
                else g2))"

definition writeVRAM :: "int \<Rightarrow> int \<Rightarrow> GPU \<Rightarrow> GPU" where
  "writeVRAM addr v g = g\<lparr>vram := (vram g)(js_rem addr VRAM_SIZE \<mapsto> mask16 v)\<rparr>"

definition readVRAM :: "int \<Rightarrow> GPU \<Rightarrow> int" where
  "readVRAM addr g = read_cell (vram g) (js_rem addr VRAM_SIZE)"

text \<open>
  The drain loop of the GWAIT instruction, \<^verbatim>\<open>while (gpu.isBusy()) gpu.cycle()\<close>.
  \<open>None\<close> means that the loop does not end.
\<close>

definition drain :: "GPU \<Rightarrow> GPU option" where
  "drain g = while_option isBusy cycle g"

subsection \<open>The phase-stepped variant (the class \<open>GPU\<close> in src/unnamed/part_003, from line 456)\<close>

text \<open>
  A second version of the Compute Unit steps an operation through decode, fetch,
  execute and writeback. Of it, the state and \<open>startOperation\<close> are modelled; the
  names carry the suffix \<open>_p\<close>.
\<close>

text \<open>
  Modelled from the spec: the type \<open>GPUMicroStage\<close> of that version's gpu/types.ts is
  not among the sources. Its values are the five stage names that the class assigns
  and compares (idle, decode, fetch, execute, writeback), the phases that the
  specification lists for the stepping function.
\<close>

datatype GPUMicroStage = GIdle | GDecode | GFetch | GExecute | GWriteback

record PendingOp =
  op_p :: string
  srcAddr_pending :: int
  dstAddr_pending :: int
  length_pending :: int
  scalar_pending :: int

record GPU_p =
  vram_p :: "int \<rightharpoonup> int"
  cores_p :: "GPUCore list"
  busy_p :: bool
  currentOp_p :: "string option"
  currentStage_p :: GPUMicroStage
  currentBatch_p :: int
  totalBatches_p :: int
  srcAddr_p :: int
  dstAddr_p :: int
  length_p :: int
  scalar_p :: int
  result_p :: int
  pendingOp :: "PendingOp option"

definition gpu_reset_p :: "GPU_p" where
  "gpu_reset_p = \<lparr>vram_p = (\<lambda>i. if 0 \<le> i \<and> i < VRAM_SIZE then Some 0 else None),
     cores_p = map idle_core [0..<GPU_CORE_COUNT], busy_p = False, currentOp_p = None,
     currentStage_p = GIdle, currentBatch_p = 0, totalBatches_p = 0, srcAddr_p = 0,
     dstAddr_p = 0, length_p = 0, scalar_p = 0, result_p = 0, pendingOp = None\<rparr>"

text \<open>\<open>startOperation\<close> of the variant: it has no check of \<open>busy\<close> either.\<close>

definition startOperation_p :: "string \<Rightarrow> int \<Rightarrow> int \<Rightarrow> int \<Rightarrow> int \<Rightarrow> GPU_p \<Rightarrow> GPU_p" where
  "startOperation_p op src dst len sc g =
     g\<lparr>pendingOp := Some \<lparr>op_p = op, srcAddr_pending = src, dstAddr_pending = dst,
                           length_pending = len, scalar_pending = sc\<rparr>,
       busy_p := True, currentStage_p := GIdle\<rparr>"

section \<open>The CPU (the class \<open>CPU\<close>, in src/vite.config.ts from line 11)\<close>

subsection \<open>State\<close>

text \<open>
  \<open>REGISTER_COUNT = 8\<close>, \<open>MEMORY_SIZE = 256\<close>, \<open>STACK_START = 0xFF\<close> (cpu/types.ts).

  \<open>registers\<close> is an array of 8 numbers, read and written only at an index that
  \<open>getRegisterIndex\<close> returned: a function from the index. \<open>memory\<close> is an array of
  256 numbers, read and written only at \<open>addr & 0xff\<close> or at \<open>sp\<close>: a function from
  an 8-bit address. \<open>sp\<close> starts at \<open>0xFF\<close> and is only ever assigned
  \<open>(sp \<plusminus> 1) & 0xff\<close>: an 8-bit word. \<open>pc\<close> is assigned operand values and memory
  cells, so it is any integer. Register and memory cells are integers, not words:
  the source masks some writes and not others, and the model keeps that.

  A micro-operation carries a stage, an optional operation name and an optional
  number; its three display strings (description, source, destination), which are
  text for the user interface with characters beyond Latin-1, are not modelled.
  The field \<open>value\<close> is named \<open>mvalue\<close>, the flags \<open>zero\<close>, \<open>negative\<close>, \<open>carry\<close>
  carry the suffix \<open>_f\<close>.
\<close>

datatype CycleStage = Idle | Fetch | Decode | Execute | Writeback

record MicroOp =
  stage :: CycleStage
  operation :: "string option"
  mvalue :: "int option"

record CPUFlags =
  zero_f :: bool
  negative_f :: bool
  carry_f :: bool

text \<open>
  \<open>CPUState\<close> is the snapshot type of cpu/types.ts. \<open>instructionRegister\<close> is
  \<open>None\<close> when it holds \<^verbatim>\<open>undefined\<close> (as after reading \<open>program[pc]\<close> at a negative
  \<open>pc\<close>).
\<close>

record CPUState =
  registers :: "nat \<Rightarrow> int"
  memory :: "8 word \<Rightarrow> int"
  pc :: int
  sp :: "8 word"
  flags :: CPUFlags
  halted :: bool
  cycles :: nat
  currentStage :: CycleStage
  instructionRegister :: "string option"
  microOps :: "MicroOp list"

text \<open>
  What the source throws: its four \<^verbatim>\<open>new Error(...)\<close> messages, and the
  \<open>TypeError\<close> that JavaScript raises when a method is called on \<^verbatim>\<open>undefined\<close>
  (a missing operand, an instruction with no token).
\<close>

datatype error =
    InvalidRegister string
  | InvalidValue string
  | DivisionByZero
  | GPUNotAvailable
  | UnknownInstruction string
  | TypeError

text \<open>
  The events of the CPU's stream, each with the snapshot taken when it is emitted. The
  error event carries the error whose message the source sends.
\<close>

datatype CPUEvent =
    EvReset CPUState
  | EvMicro CPUState "string option" MicroOp
  | EvStep CPUState "string option" "nat list"
  | EvHalt CPUState
  | EvError CPUState "string option" error

text \<open>
  The object: the fields of the snapshot and the private ones. \<open>emitted\<close> is the
  sequence of events handed to the listeners so far, oldest first.
\<close>

record CPU = CPUState +
  program :: "string list"
  labels :: "string \<rightharpoonup> int"
  previousRegisters :: "nat \<Rightarrow> int"
  currentMicroOpIndex :: nat
  gpu :: "GPU option"
  emitted :: "CPUEvent list"

definition REGISTER_COUNT :: nat where
  "REGISTER_COUNT = 8"

definition getState :: "CPU \<Rightarrow> CPUState" where
  "getState s = CPUState.truncate s"

definition emit :: "CPUEvent \<Rightarrow> CPU \<Rightarrow> CPU" where
  "emit ev s = s\<lparr>emitted := emitted s @ [ev]\<rparr>"

definition reset :: "CPU \<Rightarrow> CPU" where
  "reset s =
     (let s' = s\<lparr>registers := (\<lambda>i. 0), memory := (\<lambda>a. 0), pc := 0, sp := 255,
                  flags := \<lparr>zero_f = False, negative_f = False, carry_f = False\<rparr>,
                  halted := False, cycles := 0, program := [], labels := Map.empty,
                  previousRegisters := (\<lambda>i. 0), currentStage := Idle,
                  instructionRegister := Some [], microOps := [], currentMicroOpIndex := 0\<rparr>
      in emit (EvReset (getState s')) s')"

text \<open>\<open>loadProgram\<close> takes the assembler's instruction list and label table.\<close>

definition loadProgram :: "string list \<Rightarrow> (string \<rightharpoonup> int) \<Rightarrow> CPU \<Rightarrow> CPU" where
  "loadProgram instructions lbls s = (reset s)\<lparr>program := instructions, labels := lbls\<rparr>"

text \<open>The object as the constructor leaves it, with no Compute Unit attached.\<close>

definition new_CPU :: "CPU" where
  "new_CPU = reset \<lparr>registers = (\<lambda>i. 0), memory = (\<lambda>a. 0), pc = 0, sp = 255,
     flags = \<lparr>zero_f = False, negative_f = False, carry_f = False\<rparr>, halted = False,
     cycles = 0, currentStage = Idle, instructionRegister = Some [], microOps = [],
     program = [], labels = Map.empty, previousRegisters = (\<lambda>i. 0), currentMicroOpIndex = 0,
     gpu = None, emitted = []\<rparr>"

definition setGPU :: "GPU \<Rightarrow> CPU \<Rightarrow> CPU" where
  "setGPU g s = s\<lparr>gpu := Some g\<rparr>"

subsection \<open>Flags and operands\<close>

definition setFlags :: "int \<Rightarrow> CPU \<Rightarrow> CPU" where
  "setFlags v s = s\<lparr>flags := \<lparr>zero_f = (v = 0),
                               negative_f = (v < 0 \<or> js_and v 32768 \<noteq> 0),
                               carry_f = (v > 65535 \<or> v < 0)\<rparr>\<rparr>"

text \<open>Sequencing of computations that may throw: \<open>Inl\<close> is the thrown error.\<close>

definition bindE :: "error + 'a \<Rightarrow> ('a \<Rightarrow> error + 'b) \<Rightarrow> error + 'b" where
  "bindE m f = (case m of Inl e \<Rightarrow> Inl e | Inr v \<Rightarrow> f v)"

definition getRegisterIndex :: "string option \<Rightarrow> error + nat" where
  "getRegisterIndex r =
     (case r of
        None \<Rightarrow> Inl TypeError
      | Some reg \<Rightarrow>
          if matches_register reg \<and> 0 \<le> digit_value (reg ! 1)
               \<and> digit_value (reg ! 1) < int REGISTER_COUNT
          then Inr (nat (digit_value (reg ! 1)))
          else Inl (InvalidRegister reg))"

text \<open>
  \<^verbatim>\<open>parseInt\<close> rounds a literal of magnitude above \<open>2^53\<close> to the nearest double;
  \<open>parseValue\<close> below keeps the exact integer, so the two agree on the literals that
  \<open>safe_integer\<close> (further down) accepts.
\<close>

definition parseValue :: "CPU \<Rightarrow> string option \<Rightarrow> error + int" where
  "parseValue s v =
     (case v of
        None \<Rightarrow> Inl TypeError
      | Some v0 \<Rightarrow>
          (let val = trim v0
           in if matches_register val
                then bindE (getRegisterIndex (Some val)) (\<lambda>i. Inr (registers s i))
              else if matches_hex val then Inr (parse_digits 16 (drop 2 val))
              else if matches_decimal val
                then Inr (if hd val = CHR ''-'' then - parse_digits 10 (tl val)
                          else parse_digits 10 val)
              else (case labels s val of Some a \<Rightarrow> Inr a | None \<Rightarrow> Inl (InvalidValue val))))"

subsection \<open>Micro-operations of an instruction\<close>

definition mop :: "CycleStage \<Rightarrow> string option \<Rightarrow> int option \<Rightarrow> MicroOp" where
  "mop st opn v = \<lparr>stage = st, operation = opn, mvalue = v\<rparr>"

text \<open>
  The \<^verbatim>\<open>switch (op)\<close> of \<open>generateMicroOps\<close>: the execute and writeback
  micro-operations. It reads the state and evaluates the operands, in the order of the
  source, and so throws what \<open>getRegisterIndex\<close> and \<open>parseValue\<close> throw. In the
  DIV and MOD cases a zero divisor gives Infinity or NaN, which \<open>& 0xffff\<close> turns
  into 0.
\<close>

definition alu_result :: "string \<Rightarrow> int \<Rightarrow> int \<Rightarrow> int" where
  "alu_result op destVal srcVal =
     (if op = ''ADD'' then mask16 (destVal + srcVal)
      else if op = ''SUB'' then mask16 (destVal - srcVal)
      else if op = ''MUL'' then mask16 (destVal * srcVal)
      else if op = ''DIV'' then (if srcVal = 0 then 0 else mask16 (destVal div srcVal))
      else if op = ''MOD'' then (if srcVal = 0 then 0 else mask16 (js_rem destVal srcVal))
      else if op = ''AND'' then mask16 (js_and destVal srcVal)
      else if op = ''OR'' then mask16 (js_or destVal srcVal)
      else if op = ''XOR'' then mask16 (js_xor destVal srcVal)
      else 0)"

definition execute_ops :: "CPU \<Rightarrow> string \<Rightarrow> string list \<Rightarrow> error + MicroOp list" where
  "execute_ops s op parts =
     (if op = ''MOV'' then
        bindE (parseValue s (part parts 2)) (\<lambda>v.
          Inr [mop Execute None (Some v), mop Writeback None (Some (mask16 v))])
      else if op \<in> set [''ADD'', ''SUB'', ''MUL'', ''DIV'', ''MOD'', ''AND'', ''OR'', ''XOR''] then
        bindE (getRegisterIndex (part parts 1)) (\<lambda>d.
        bindE (parseValue s (part parts 2)) (\<lambda>srcVal.
          let destVal = registers s d; r = alu_result op destVal srcVal
          in Inr [mop Execute None (Some destVal), mop Execute None (Some srcVal),
                  mop Execute (Some op) (Some r), mop Writeback None (Some r)]))
      else if op = ''INC'' \<or> op = ''DEC'' then
        bindE (getRegisterIndex (part parts 1)) (\<lambda>d.
          let destVal = registers s d;
              r = mask16 (if op = ''INC'' then destVal + 1 else destVal - 1)
          in Inr [mop Execute None (Some destVal), mop Execute (Some op) (Some r),
                  mop Writeback None (Some r)])
      else if op = ''NOT'' then
        bindE (getRegisterIndex (part parts 1)) (\<lambda>d.
          let destVal = registers s d; r = mask16 (js_not destVal)
          in Inr [mop Execute None (Some destVal), mop Execute (Some ''NOT'') (Some r),
                  mop Writeback None (Some r)])
      else if op = ''SHL'' \<or> op = ''SHR'' then
        bindE (parseValue s (part parts 2)) (\<lambda>amt.
        bindE (getRegisterIndex (part parts 1)) (\<lambda>d.
          let destVal = registers s d;
              r = (if op = ''SHL'' then mask16 (js_shl destVal amt) else js_shr destVal amt)
          in Inr [mop Execute None (Some destVal), mop Execute (Some op) (Some r),
                  mop Writeback None (Some r)]))
      else if op = ''CMP'' then
        bindE (parseValue s (part parts 1)) (\<lambda>a.
        bindE (parseValue s (part parts 2)) (\<lambda>b.
          Inr [mop Execute None (Some a), mop Execute None (Some b),
               mop Execute (Some ''CMP'') None]))
      else if op = ''JMP'' then
        bindE (parseValue s (part parts 1)) (\<lambda>target.
          Inr [mop Execute None (Some target)])
      else if op \<in> set [''JZ'', ''JE'', ''JNZ'', ''JNE'', ''JG'', ''JGE'', ''JL'', ''JLE''] then
        bindE (parseValue s (part parts 1)) (\<lambda>target.
          Inr [mop Execute (Some op) None, mop Execute None (Some target)])
      else if op = ''LOAD'' then
        bindE (parseValue s (part parts 2)) (\<lambda>addr.
          let v = memory s (word_of_int addr)
          in Inr [mop Execute None (Some addr), mop Execute None (Some v),
                  mop Writeback None (Some v)])
      else if op = ''STORE'' then
        bindE (parseValue s (part parts 1)) (\<lambda>addr.
        bindE (parseValue s (part parts 2)) (\<lambda>v.
          Inr [mop Execute None (Some addr), mop Execute None (Some v),
               mop Writeback None (Some v)]))
      else if op = ''PUSH'' then
        bindE (parseValue s (part parts 1)) (\<lambda>v.
          Inr [mop Execute None (Some (uint (sp s))), mop Execute None (Some v),
               mop Writeback None (Some v), mop Writeback None (Some (uint (sp s - 1)))])
      else if op = ''POP'' then
        (let newSp = sp s + 1; v = memory s newSp
         in Inr [mop Execute None (Some (uint newSp)), mop Execute None (Some v),
                 mop Writeback None (Some v)])
      else if op = ''CALL'' then
        bindE (parseValue s (part parts 1)) (\<lambda>target.
          Inr [mop Execute None (Some (pc s + 1)), mop Execute None (Some (uint (sp s - 1))),
               mop Writeback None (Some target)])
      else if op = ''RET'' then
        (let newSp = sp s + 1; returnAddr = memory s newSp
         in Inr [mop Execute None (Some (uint newSp)), mop Execute None (Some returnAddr)])
      else if op = ''NOP'' then Inr [mop Execute (Some ''NOP'') None]
      else if op = ''HALT'' \<or> op = ''HLT'' then Inr [mop Execute (Some ''HALT'') None]
      else if op = ''GLOAD'' then
        bindE (parseValue s (part parts 1)) (\<lambda>vramAddr.
        bindE (parseValue s (part parts 2)) (\<lambda>cpuAddr.
        bindE (parseValue s (part parts 3)) (\<lambda>len.
          Inr [mop Execute (Some ''GLOAD'') None])))
      else if op = ''GSTORE'' then
        bindE (parseValue s (part parts 1)) (\<lambda>cpuAddr.
        bindE (parseValue s (part parts 2)) (\<lambda>vramAddr.
        bindE (parseValue s (part parts 3)) (\<lambda>len.
          Inr [mop Execute (Some ''GSTORE'') None])))
      else if op = ''GEXEC'' then
        (case part parts 1 of
           None \<Rightarrow> Inl TypeError
         | Some p1 \<Rightarrow>
             bindE (parseValue s (part parts 2)) (\<lambda>src.
             bindE (parseValue s (part parts 3)) (\<lambda>dst.
             bindE (parseValue s (part parts 4)) (\<lambda>len.
               Inr [mop Execute (Some (toUpperCase p1)) None]))))
      else if op = ''GWAIT'' then Inr [mop Execute (Some ''GWAIT'') None]
      else if op = ''GRESULT'' then Inr [mop Execute (Some ''GRESULT'') None]
      else if op = ''GWRITE'' then
        bindE (parseValue s (part parts 1)) (\<lambda>addr.
        bindE (parseValue s (part parts 2)) (\<lambda>v.
          Inr [mop Execute (Some ''GWRITE'') (Some v)]))
      else if op = ''GREAD'' then
        bindE (parseValue s (part parts 2)) (\<lambda>addr.
          Inr [mop Execute (Some ''GREAD'') None])
      else Inr [mop Execute (Some op) None])"

text \<open>
  \<open>generateMicroOps\<close>: \<^verbatim>\<open>instruction.split\<close> on an \<^verbatim>\<open>undefined\<close> instruction and
  \<^verbatim>\<open>parts[0]!.toUpperCase()\<close> on an instruction with no token throw a TypeError.
\<close>

definition generateMicroOps :: "CPU \<Rightarrow> string option \<Rightarrow> error + MicroOp list" where
  "generateMicroOps s instruction =
     (case instruction of
        None \<Rightarrow> Inl TypeError
      | Some text \<Rightarrow>
          (case split_parts text of
             [] \<Rightarrow> Inl TypeError
           | p0 # ps \<Rightarrow>
               (let op = toUpperCase p0
                in bindE (execute_ops s op (p0 # ps)) (\<lambda>ops.
                     Inr (mop Fetch None None # mop Decode (Some op) None # ops)))))"

subsection \<open>Executing an instruction\<close>

definition write_reg :: "nat \<Rightarrow> int \<Rightarrow> CPU \<Rightarrow> CPU" where
  "write_reg i v s = s\<lparr>registers := (registers s)(i := v)\<rparr>"

definition advance :: "CPU \<Rightarrow> CPU" where
  "advance s = s\<lparr>pc := pc s + 1\<rparr>"

text \<open>
  A conditional jump: \<^verbatim>\<open>if (cond) { this.pc = this.parseValue(parts[1]!); return; }
  break;\<close>. The operand is evaluated only when the condition holds.
\<close>

definition jump_if :: "bool \<Rightarrow> string list \<Rightarrow> CPU \<Rightarrow> error + CPU" where
  "jump_if cond parts s =
     (if cond then bindE (parseValue s (part parts 1)) (\<lambda>target. Inr (s\<lparr>pc := target\<rparr>))
      else Inr (advance s))"

text \<open>
  The \<^verbatim>\<open>switch (op)\<close> of \<open>executeInstruction\<close> with the \<^verbatim>\<open>this.pc++\<close> that
  follows it (the jumps that \<^verbatim>\<open>return\<close> skip the increment). \<open>Inl\<close> is the thrown
  error; every case evaluates all its operands before its first assignment, so a thrown
  error leaves the state as the switch found it. The outer \<open>None\<close> is the GWAIT loop
  not ending.
\<close>

definition exec_op :: "string \<Rightarrow> string list \<Rightarrow> CPU \<Rightarrow> (error + CPU) option" where
  "exec_op op parts s =
     (if op = ''MOV'' then Some (
        bindE (getRegisterIndex (part parts 1)) (\<lambda>destIdx.
        bindE (parseValue s (part parts 2)) (\<lambda>v.
          Inr (advance (write_reg destIdx (mask16 v) s)))))
      else if op = ''ADD'' then Some (
        bindE (getRegisterIndex (part parts 1)) (\<lambda>destIdx.
        bindE (parseValue s (part parts 2)) (\<lambda>v.
          let r = registers s destIdx + v
          in Inr (advance (setFlags r (write_reg destIdx (mask16 r) s))))))
      else if op = ''SUB'' then Some (
        bindE (getRegisterIndex (part parts 1)) (\<lambda>destIdx.
        bindE (parseValue s (part parts 2)) (\<lambda>v.
          let r = registers s destIdx - v
          in Inr (advance (setFlags r (write_reg destIdx (mask16 r) s))))))
      else if op = ''MUL'' then Some (
        bindE (getRegisterIndex (part parts 1)) (\<lambda>destIdx.
        bindE (parseValue s (part parts 2)) (\<lambda>v.
          let r = registers s destIdx * v
          in Inr (advance (setFlags r (write_reg destIdx (mask16 r) s))))))
      else if op = ''DIV'' then Some (
        bindE (getRegisterIndex (part parts 1)) (\<lambda>destIdx.
        bindE (parseValue s (part parts 2)) (\<lambda>v.
          if v = 0 then Inl DivisionByZero
          else let r = registers s destIdx div v
               in Inr (advance (setFlags r (write_reg destIdx (mask16 r) s))))))
      else if op = ''MOD'' then Some (
        bindE (getRegisterIndex (part parts 1)) (\<lambda>destIdx.
        bindE (parseValue s (part parts 2)) (\<lambda>v.
          if v = 0 then Inl DivisionByZero
          else let r = js_rem (registers s destIdx) v
               in Inr (advance (setFlags r (write_reg destIdx (mask16 r) s))))))
      else if op = ''AND'' then Some (
        bindE (getRegisterIndex (part parts 1)) (\<lambda>destIdx.
        bindE (parseValue s (part parts 2)) (\<lambda>v.
          let r = js_and (registers s destIdx) v
          in Inr (advance (setFlags r (write_reg destIdx r s))))))
      else if op = ''OR'' then Some (
        bindE (getRegisterIndex (part parts 1)) (\<lambda>destIdx.
        bindE (parseValue s (part parts 2)) (\<lambda>v.
          let r = js_or (registers s destIdx) v
          in Inr (advance (setFlags r (write_reg destIdx r s))))))
      else if op = ''XOR'' then Some (
        bindE (getRegisterIndex (part parts 1)) (\<lambda>destIdx.
        bindE (parseValue s (part parts 2)) (\<lambda>v.
          let r = js_xor (registers s destIdx) v
          in Inr (advance (setFlags r (write_reg destIdx r s))))))
      else if op = ''NOT'' then Some (
        bindE (getRegisterIndex (part parts 1)) (\<lambda>destIdx.
          let r = mask16 (js_not (registers s destIdx))
          in Inr (advance (setFlags r (write_reg destIdx r s)))))
      else if op = ''SHL'' then Some (
        bindE (getRegisterIndex (part parts 1)) (\<lambda>destIdx.
        bindE (parseValue s (part parts 2)) (\<lambda>v.
          let r = mask16 (js_shl (registers s destIdx) v)
          in Inr (advance (setFlags r (write_reg destIdx r s))))))
      else if op = ''SHR'' then Some (
        bindE (getRegisterIndex (part parts 1)) (\<lambda>destIdx.
        bindE (parseValue s (part parts 2)) (\<lambda>v.
          let r = js_shr (registers s destIdx) v
          in Inr (advance (setFlags r (write_reg destIdx r s))))))
      else if op = ''INC'' then Some (
        bindE (getRegisterIndex (part parts 1)) (\<lambda>destIdx.
          let r = registers s destIdx + 1
          in Inr (advance (setFlags r (write_reg destIdx (mask16 r) s)))))
      else if op = ''DEC'' then Some (
        bindE (getRegisterIndex (part parts 1)) (\<lambda>destIdx.
          let r = registers s destIdx - 1
          in Inr (advance (setFlags r (write_reg destIdx (mask16 r) s)))))
      else if op = ''CMP'' then Some (
        bindE (parseValue s (part parts 1)) (\<lambda>reg1.
        bindE (parseValue s (part parts 2)) (\<lambda>reg2.
          Inr (advance (setFlags (reg1 - reg2) s)))))
      else if op = ''JMP'' then Some (
        bindE (parseValue s (part parts 1)) (\<lambda>target. Inr (s\<lparr>pc := target\<rparr>)))
      else if op = ''JZ'' \<or> op = ''JE'' then Some (jump_if (zero_f (flags s)) parts s)
      else if op = ''JNZ'' \<or> op = ''JNE'' then Some (jump_if (\<not> zero_f (flags s)) parts s)
      else if op = ''JG'' then
        Some (jump_if (\<not> zero_f (flags s) \<and> \<not> negative_f (flags s)) parts s)
      else if op = ''JGE'' then Some (jump_if (\<not> negative_f (flags s)) parts s)
      else if op = ''JL'' then Some (jump_if (negative_f (flags s)) parts s)
      else if op = ''JLE'' then
        Some (jump_if (zero_f (flags s) \<or> negative_f (flags s)) parts s)
      else if op = ''LOAD'' then Some (
        bindE (getRegisterIndex (part parts 1)) (\<lambda>destIdx.
        bindE (parseValue s (part parts 2)) (\<lambda>addr.
          Inr (advance (write_reg destIdx (memory s (word_of_int addr)) s)))))
      else if op = ''STORE'' then Some (
        bindE (parseValue s (part parts 1)) (\<lambda>addr.
        bindE (parseValue s (part parts 2)) (\<lambda>v.
          Inr (advance (s\<lparr>memory := (memory s)(word_of_int addr := mask16 v)\<rparr>)))))
      else if op = ''PUSH'' then Some (
        bindE (parseValue s (part parts 1)) (\<lambda>v.
          Inr (advance (s\<lparr>memory := (memory s)(sp s := v), sp := sp s - 1\<rparr>))))
      else if op = ''POP'' then Some (
        bindE (getRegisterIndex (part parts 1)) (\<lambda>destIdx.
          let s1 = s\<lparr>sp := sp s + 1\<rparr>
          in Inr (advance (write_reg destIdx (memory s1 (sp s1)) s1))))
      else if op = ''CALL'' then Some (
        bindE (parseValue s (part parts 1)) (\<lambda>target.
          Inr (s\<lparr>memory := (memory s)(sp s := pc s + 1), sp := sp s - 1, pc := target\<rparr>)))
      else if op = ''RET'' then Some (
        let s1 = s\<lparr>sp := sp s + 1\<rparr> in Inr (s1\<lparr>pc := memory s1 (sp s1)\<rparr>))
      else if op = ''NOP'' then Some (Inr (advance s))
      else if op = ''HALT'' \<or> op = ''HLT'' then Some (Inr (advance (s\<lparr>halted := True\<rparr>)))
      else if op = ''GLOAD'' then Some (
        case gpu s of
          None \<Rightarrow> Inl GPUNotAvailable
        | Some g \<Rightarrow>
            bindE (parseValue s (part parts 1)) (\<lambda>vramAddr.
            bindE (parseValue s (part parts 2)) (\<lambda>cpuAddr.
            bindE (parseValue s (part parts 3)) (\<lambda>len.
              Inr (advance (s\<lparr>gpu := Some (loadToVRAM (memory s) cpuAddr vramAddr len g)\<rparr>))))))
      else if op = ''GSTORE'' then Some (
        case gpu s of
          None \<Rightarrow> Inl GPUNotAvailable
        | Some g \<Rightarrow>
            bindE (parseValue s (part parts 1)) (\<lambda>cpuAddr.
            bindE (parseValue s (part parts 2)) (\<lambda>vramAddr.
            bindE (parseValue s (part parts 3)) (\<lambda>len.
              Inr (advance (s\<lparr>memory := storeFromVRAM (memory s) vramAddr cpuAddr len g\<rparr>))))))
      else if op = ''GEXEC'' then Some (
        case gpu s of
          None \<Rightarrow> Inl GPUNotAvailable
        | Some g \<Rightarrow>
            (case part parts 1 of
               None \<Rightarrow> Inl TypeError
             | Some p1 \<Rightarrow>
                 bindE (parseValue s (part parts 2)) (\<lambda>src.
                 bindE (parseValue s (part parts 3)) (\<lambda>dst.
                 bindE (parseValue s (part parts 4)) (\<lambda>len.
                 bindE (case part parts 5 of None \<Rightarrow> Inr 0
                        | Some p5 \<Rightarrow> parseValue s (Some p5)) (\<lambda>sc.
                   Inr (advance
                     (s\<lparr>gpu := Some (startOperation (toUpperCase p1) src dst len sc g)\<rparr>))))))))
      else if op = ''GWAIT'' then (
        case gpu s of
          None \<Rightarrow> Some (Inl GPUNotAvailable)
        | Some g \<Rightarrow>
            (case drain g of
               None \<Rightarrow> None
             | Some g' \<Rightarrow> Some (Inr (advance (s\<lparr>gpu := Some g'\<rparr>)))))
      else if op = ''GRESULT'' then Some (
        case gpu s of
          None \<Rightarrow> Inl GPUNotAvailable
        | Some g \<Rightarrow>
            bindE (getRegisterIndex (part parts 1)) (\<lambda>destIdx.
              Inr (advance (write_reg destIdx (getResult g) s))))
      else if op = ''GWRITE'' then Some (
        case gpu s of
          None \<Rightarrow> Inl GPUNotAvailable
        | Some g \<Rightarrow>
            bindE (parseValue s (part parts 1)) (\<lambda>addr.
            bindE (parseValue s (part parts 2)) (\<lambda>v.
              Inr (advance (s\<lparr>gpu := Some (writeVRAM addr v g)\<rparr>)))))
      else if op = ''GREAD'' then Some (
        case gpu s of
          None \<Rightarrow> Inl GPUNotAvailable
        | Some g \<Rightarrow>
            bindE (getRegisterIndex (part parts 1)) (\<lambda>destIdx.
            bindE (parseValue s (part parts 2)) (\<lambda>addr.
              Inr (advance (write_reg destIdx (readVRAM addr g) s)))))
      else Some (Inl (UnknownInstruction op)))"

text \<open>
  \<open>executeInstruction\<close>. The result is \<open>None\<close> when the call does not return, and
  otherwise the error it throws, if any, with the state it leaves. The tokens are split
  and the opcode upper-cased before \<^verbatim>\<open>this.cycles++\<close>, so a TypeError there leaves
  the cycle count alone; an error thrown in the switch leaves the incremented count
  and nothing else.
\<close>

definition executeInstruction :: "string option \<Rightarrow> CPU \<Rightarrow> (error option \<times> CPU) option" where
  "executeInstruction instruction s =
     (case instruction of
        None \<Rightarrow> Some (Some TypeError, s)
      | Some text \<Rightarrow>
          (case split_parts text of
             [] \<Rightarrow> Some (Some TypeError, s)
           | p0 # ps \<Rightarrow>
               (let s1 = s\<lparr>cycles := cycles s + 1\<rparr>
                in case exec_op (toUpperCase p0) (p0 # ps) s1 of
                     None \<Rightarrow> None
                   | Some (Inl e) \<Rightarrow> Some (Some e, s1)
                   | Some (Inr s2) \<Rightarrow> Some (None, s2))))"

subsection \<open>\<open>step\<close> and \<open>microStep\<close>\<close>

text \<open>
  A call either returns a value or throws; \<open>None\<close> around the result means that the
  call does not return.
\<close>

datatype 'a completion = Returns 'a | Throws error

definition changedRegisters :: "CPU \<Rightarrow> nat list" where
  "changedRegisters s = filter (\<lambda>i. registers s i \<noteq> previousRegisters s i) [0..<REGISTER_COUNT]"

text \<open>\<open>program[pc]\<close>, \<^verbatim>\<open>undefined\<close> outside the array.\<close>

definition program_at :: "CPU \<Rightarrow> string option" where
  "program_at s = (if 0 \<le> pc s \<and> pc s < int (length (program s))
                   then Some (program s ! nat (pc s)) else None)"

text \<open>
  The \<^verbatim>\<open>try\<close> block shared in shape by both entry points: \<open>on_success\<close> is the
  rest of the \<^verbatim>\<open>try\<close> body after \<open>executeInstruction\<close>, and the \<^verbatim>\<open>catch\<close> emits the
  error event and then sets \<open>halted\<close>.
\<close>

definition try_execute :: "string option \<Rightarrow> (CPU \<Rightarrow> CPU) \<Rightarrow> CPU \<Rightarrow> (bool \<times> CPU) option" where
  "try_execute instruction on_success s =
     (case executeInstruction instruction s of
        None \<Rightarrow> None
      | Some (None, s1) \<Rightarrow> Some (True, on_success s1)
      | Some (Some e, s1) \<Rightarrow>
          Some (False, (emit (EvError (getState s1) instruction e) s1)\<lparr>halted := True\<rparr>))"

text \<open>The rest of the \<^verbatim>\<open>try\<close> body of \<open>step\<close>, after \<open>executeInstruction\<close>.\<close>

definition step_success :: "string option \<Rightarrow> CPU \<Rightarrow> CPU" where
  "step_success instruction s3 =
     (let s4 = s3\<lparr>currentStage := Idle\<rparr>
      in emit (EvStep (getState s4) instruction (changedRegisters s4)) s4)"

definition step :: "CPU \<Rightarrow> (bool completion \<times> CPU) option" where
  "step s =
     (if halted s \<or> pc s \<ge> int (length (program s)) then
        (let s1 = s\<lparr>halted := True\<rparr> in Some (Returns False, emit (EvHalt (getState s1)) s1))
      else
        (let instruction = program_at s;
             s1 = s\<lparr>previousRegisters := registers s, instructionRegister := instruction\<rparr>
         in case generateMicroOps s1 instruction of
              Inl e \<Rightarrow> Some (Throws e, s1)
            | Inr ops \<Rightarrow>
                (case try_execute instruction (step_success instruction) (s1\<lparr>microOps := ops\<rparr>) of
                   None \<Rightarrow> None
                 | Some (True, s') \<Rightarrow> Some (Returns (\<not> halted s'), s')
                 | Some (False, s') \<Rightarrow> Some (Returns False, s'))))"

text \<open>
  \<open>microStep\<close> returns the micro-operation it performed, or \<^verbatim>\<open>null\<close> (\<open>None\<close>)
  when the CPU is halted or the program counter is past the program. Its parts, in the
  order of the source: \<open>start_instruction\<close> is the block "Start new instruction if
  needed", where \<open>generateMicroOps\<close> may throw; \<open>perform_micro\<close> is the rest of the
  method; \<open>micro_success\<close> is the rest of its \<^verbatim>\<open>try\<close> body after
  \<open>executeInstruction\<close>.
\<close>

definition start_instruction :: "CPU \<Rightarrow> (error \<times> CPU) + CPU" where
  "start_instruction s =
     (if currentMicroOpIndex s \<ge> length (microOps s) then
        (let s1 = s\<lparr>instructionRegister := program_at s\<rparr>
         in case generateMicroOps s1 (instructionRegister s1) of
              Inl e \<Rightarrow> Inl (e, s1)
            | Inr ops \<Rightarrow> Inr (s1\<lparr>microOps := ops, currentMicroOpIndex := 0\<rparr>))
      else Inr s)"

definition micro_success :: "CPU \<Rightarrow> CPU" where
  "micro_success s6 =
     (let s7 = emit (EvStep (getState s6) (instructionRegister s6) (changedRegisters s6)) s6;
          s8 = s7\<lparr>currentStage := Idle, microOps := [], currentMicroOpIndex := 0\<rparr>
      in if halted s8 then emit (EvHalt (getState s8)) s8 else s8)"

definition perform_micro :: "CPU \<Rightarrow> (MicroOp option completion \<times> CPU) option" where
  "perform_micro s2 =
     (let microOp = microOps s2 ! currentMicroOpIndex s2;
          s3 = s2\<lparr>currentStage := stage microOp,
                  currentMicroOpIndex := currentMicroOpIndex s2 + 1\<rparr>;
          s4 = emit (EvMicro (getState s3) (instructionRegister s3) microOp) s3
      in if currentMicroOpIndex s4 \<ge> length (microOps s4) then
           (case try_execute (instructionRegister s4) micro_success
                   (s4\<lparr>previousRegisters := registers s4\<rparr>) of
              None \<Rightarrow> None
            | Some (ok, s') \<Rightarrow> Some (Returns (Some microOp), s'))
         else Some (Returns (Some microOp), s4))"

definition microStep :: "CPU \<Rightarrow> (MicroOp option completion \<times> CPU) option" where
  "microStep s =
     (if halted s \<or> pc s \<ge> int (length (program s)) then
        Some (Returns None, s\<lparr>halted := True, currentStage := Idle\<rparr>)
      else
        (case start_instruction s of
           Inl (e, s1) \<Rightarrow> Some (Throws e, s1)
         | Inr s2 \<Rightarrow> perform_micro s2))"

text \<open>Calling an entry point \<open>n\<close> times; a call that throws or does not return ends the run.\<close>

fun microSteps :: "nat \<Rightarrow> CPU \<Rightarrow> (unit completion \<times> CPU) option" where
  "microSteps 0 s = Some (Returns (), s)"
| "microSteps (Suc n) s =
     (case microStep s of
        None \<Rightarrow> None
      | Some (Throws e, s') \<Rightarrow> Some (Throws e, s')
      | Some (Returns m, s') \<Rightarrow> microSteps n s')"

fun steps :: "nat \<Rightarrow> CPU \<Rightarrow> (unit completion \<times> CPU) option" where
  "steps 0 s = Some (Returns (), s)"
| "steps (Suc n) s =
     (case step s of
        None \<Rightarrow> None
      | Some (Throws e, s') \<Rightarrow> Some (Throws e, s')
      | Some (Returns b, s') \<Rightarrow> steps n s')"

section \<open>The assembler, pass 1 (src/assembler/assembler.ts)\<close>

text \<open>
  The first loop of \<open>assemble\<close>: it collects the labels and the cleaned lines.
  \<open>labels\<close> is a plain object, and \<^verbatim>\<open>labels[labelName] !== undefined\<close> also holds
  for a name that the object inherits from \<open>Object.prototype\<close>; such a name counts
  as taken although no line recorded it.
\<close>

record AssemblyError =
  line :: nat
  message :: string

record CleanedLine =
  cl_line :: nat
  content :: string

record Pass1 =
  labels_a :: "string \<rightharpoonup> nat"
  cleanedLines :: "CleanedLine list"
  errors :: "AssemblyError list"
  instructionIndex :: nat

definition object_prototype_names :: "string list" where
  "object_prototype_names = [''constructor'', ''hasOwnProperty'', ''isPrototypeOf'',
     ''propertyIsEnumerable'', ''toLocaleString'', ''toString'', ''valueOf'', ''__proto__'',
     ''__defineGetter__'', ''__defineSetter__'', ''__lookupGetter__'', ''__lookupSetter__'']"

definition label_taken :: "(string \<rightharpoonup> nat) \<Rightarrow> string \<Rightarrow> bool" where
  "label_taken lbls name = (lbls name \<noteq> None \<or> name \<in> set object_prototype_names)"

text \<open>
  \<^verbatim>\<open>/^(\w+):(.*)$/\<close>: a non-empty run of word characters, a colon, and a rest in
  which \<open>.\<close> matches every character but a line terminator. The result is the label
  name and the rest.
\<close>

definition label_match :: "string \<Rightarrow> (string \<times> string) option" where
  "label_match t =
     (let w = takeWhile is_word_char t; r = dropWhile is_word_char t
      in if w \<noteq> [] \<and> r \<noteq> [] \<and> hd r = CHR '':''
            \<and> list_all (\<lambda>c. c \<noteq> CHR 0x0A \<and> c \<noteq> CHR 0x0D) (tl r)
         then Some (w, tl r) else None)"

text \<open>The body of the loop for the line \<open>lines[i]\<close>.\<close>

definition pass1_line :: "nat \<Rightarrow> string \<Rightarrow> Pass1 \<Rightarrow> Pass1" where
  "pass1_line i ln st =
     (let withoutComment = trim (hd (split_on (\<lambda>c. c = CHR '';'') ln))
      in if withoutComment = [] then st
         else
           (case label_match withoutComment of
              Some (labelName, rest0) \<Rightarrow>
                if label_taken (labels_a st) labelName then
                  st\<lparr>errors := errors st @
                       [\<lparr>line = i + 1, message = ''Duplicate label: '' @ labelName\<rparr>]\<rparr>
                else
                  (let st1 = st\<lparr>labels_a := (labels_a st)(labelName \<mapsto> instructionIndex st)\<rparr>;
                       rest = trim rest0
                   in if rest \<noteq> [] then
                        st1\<lparr>cleanedLines := cleanedLines st1 @ [\<lparr>cl_line = i + 1, content = rest\<rparr>],
                            instructionIndex := instructionIndex st1 + 1\<rparr>
                      else st1)
            | None \<Rightarrow>
                st\<lparr>cleanedLines := cleanedLines st @
                     [\<lparr>cl_line = i + 1, content = withoutComment\<rparr>],
                   instructionIndex := instructionIndex st + 1\<rparr>))"

definition pass1 :: "string \<Rightarrow> Pass1" where
  "pass1 code =
     (let lines = split_on (\<lambda>c. c = CHR 0x0A) code
      in fold (\<lambda>i st. pass1_line i (lines ! i) st) [0..<length lines]
           \<lparr>labels_a = Map.empty, cleanedLines = [], errors = [], instructionIndex = 0\<rparr>)"

section \<open>Notions used in the statements\<close>

fun is_error_event :: "CPUEvent \<Rightarrow> bool" where
  "is_error_event (EvError st i e) = True"
| "is_error_event ev = False"

text \<open>The events a call added to the stream.\<close>

definition new_events :: "CPU \<Rightarrow> CPU \<Rightarrow> CPUEvent list" where
  "new_events s s' = drop (length (emitted s)) (emitted s')"

text \<open>The opcode of an instruction text: its first token in upper case.\<close>

definition opcode_of :: "string option \<Rightarrow> string option" where
  "opcode_of instruction =
     (case instruction of
        None \<Rightarrow> None
      | Some text \<Rightarrow> (case split_parts text of [] \<Rightarrow> None | p0 # ps \<Rightarrow> Some (toUpperCase p0)))"

text \<open>
  Two CPU objects agree on the architectural state: everything but the pipeline
  display fields (\<open>currentStage\<close>, \<open>instructionRegister\<close>, \<open>microOps\<close>,
  \<open>currentMicroOpIndex\<close>), \<open>previousRegisters\<close> and the events emitted.
\<close>

definition same_arch :: "CPU \<Rightarrow> CPU \<Rightarrow> bool" where
  "same_arch s t =
     (registers s = registers t \<and> memory s = memory t \<and> pc s = pc t \<and> sp s = sp t
      \<and> flags s = flags t \<and> halted s = halted t \<and> cycles s = cycles t
      \<and> program s = program t \<and> labels s = labels t \<and> gpu s = gpu t)"

text \<open>\<open>s\<close> with the remaining fields taken from \<open>t\<close>.\<close>

definition with_pipe :: "CPU \<Rightarrow> CPU \<Rightarrow> CPU" where
  "with_pipe t s = s\<lparr>currentStage := currentStage t, instructionRegister := instructionRegister t,
     microOps := microOps t, previousRegisters := previousRegisters t,
     currentMicroOpIndex := currentMicroOpIndex t, emitted := emitted t\<rparr>"

text \<open>The opcodes that the switch of \<open>executeInstruction\<close> names.\<close>

definition all_ops :: "string list" where
  "all_ops = [''MOV'', ''ADD'', ''SUB'', ''MUL'', ''DIV'', ''MOD'', ''AND'', ''OR'', ''XOR'',
     ''NOT'', ''SHL'', ''SHR'', ''INC'', ''DEC'', ''CMP'', ''JMP'', ''JZ'', ''JE'', ''JNZ'',
     ''JNE'', ''JG'', ''JGE'', ''JL'', ''JLE'', ''LOAD'', ''STORE'', ''PUSH'', ''POP'', ''CALL'',
     ''RET'', ''NOP'', ''HALT'', ''HLT'', ''GLOAD'', ''GSTORE'', ''GEXEC'', ''GWAIT'',
     ''GRESULT'', ''GWRITE'', ''GREAD'']"

text \<open>
  The data and the Compute Unit part of the repository's example program
  "GPU: Vector Addition": A at primary addresses \<open>0x00..0x07\<close>, B at \<open>0x10..0x17\<close>,
  loaded to compute addresses 0 and 16.
\<close>

definition vector_memory :: "8 word \<Rightarrow> int" where
  "vector_memory a = (if a < 8 then uint a + 1 else if 16 \<le> a \<and> a < 24 then 10 else 0)"

definition vector_add_program :: "string list" where
  "vector_add_program =
     [''GLOAD 0, 0x00, 8'', ''GLOAD 16, 0x10, 8'', ''GEXEC VADD, 0, 16, 8'', ''GWAIT'']"

text \<open>
  The unmasked result of an operation on the destination value \<open>a\<close> and the operand
  \<open>b\<close>, and the flags that a number determines in the words of the specification.
\<close>

definition raw_result :: "string \<Rightarrow> int \<Rightarrow> int \<Rightarrow> int" where
  "raw_result op a b =
     (if op = ''ADD'' then a + b
      else if op = ''SUB'' \<or> op = ''CMP'' then a - b
      else if op = ''MUL'' then a * b
      else if op = ''DIV'' then a div b
      else if op = ''MOD'' then js_rem a b
      else if op = ''AND'' then js_and a b
      else if op = ''OR'' then js_or a b
      else if op = ''XOR'' then js_xor a b
      else if op = ''NOT'' then js_not a
      else if op = ''SHL'' then js_shl a b
      else if op = ''SHR'' then js_shr a b
      else if op = ''INC'' then a + 1
      else if op = ''DEC'' then a - 1
      else 0)"

definition flags_of :: "int \<Rightarrow> CPUFlags" where
  "flags_of r = \<lparr>zero_f = (r = 0), negative_f = (r < 0 \<or> bit r 15),
                 carry_f = (r > 65535 \<or> r < 0)\<rparr>"

text \<open>
  The integers that a JavaScript number holds exactly (\<^verbatim>\<open>Number.isSafeInteger\<close>:
  magnitude at most \<open>2^53 - 1\<close>). An operation is exact when both operands and its
  unmasked result are such integers: there the doubles of the source compute what the
  integers of this model compute (\<open>+\<close>, \<open>-\<close> and \<open>*\<close> give the exact result when it is
  representable, \<^verbatim>\<open>Math.floor(a / b)\<close> and \<open>%\<close> are exact on safe integers, and the
  bitwise operators see the same 32 bits). Outside it the source rounds, and nothing is
  claimed about the values.
\<close>

definition safe_integer :: "int \<Rightarrow> bool" where
  "safe_integer x = (\<bar>x\<bar> \<le> 9007199254740991)"

definition exact_operation :: "string \<Rightarrow> int \<Rightarrow> int \<Rightarrow> bool" where
  "exact_operation op a b =
     (safe_integer a \<and> safe_integer b \<and> safe_integer (raw_result op a b))"

section \<open>Execution does not depend on the pipeline fields\<close>

lemma with_pipe_same: "same_arch s t \<Longrightarrow> with_pipe t s = t"
  by (cases s, cases t) (simp add: same_arch_def with_pipe_def)

lemma fields_with_pipe [simp]:
  "registers (with_pipe t s) = registers s" "memory (with_pipe t s) = memory s"
  "pc (with_pipe t s) = pc s" "sp (with_pipe t s) = sp s" "flags (with_pipe t s) = flags s"
  "halted (with_pipe t s) = halted s" "cycles (with_pipe t s) = cycles s"
  "program (with_pipe t s) = program s" "labels (with_pipe t s) = labels s"
  "gpu (with_pipe t s) = gpu s"
  by (simp_all add: with_pipe_def)

lemma parseValue_with_pipe [simp]: "parseValue (with_pipe t s) p = parseValue s p"
  by (simp add: parseValue_def Let_def split: option.split)

lemma execute_ops_with_pipe [simp]: "execute_ops (with_pipe t s) op parts = execute_ops s op parts"
  by (simp add: execute_ops_def cong: if_cong option.case_cong)

lemma generateMicroOps_with_pipe [simp]: "generateMicroOps (with_pipe t s) i = generateMicroOps s i"
  by (simp add: generateMicroOps_def Let_def split: option.split list.split)

lemma jump_if_with_pipe:
  "jump_if c parts (with_pipe t s) = map_sum id (with_pipe t) (jump_if c parts s)"
  by (cases "parseValue s (part parts 1)")
     (simp_all add: jump_if_def bindE_def advance_def, simp_all add: with_pipe_def)

lemma exec_op_with_pipe:
  "exec_op op parts (with_pipe t s) = map_option (map_sum id (with_pipe t)) (exec_op op parts s)"
proof (cases "op \<in> set all_ops")
  case False
  then show ?thesis by (simp add: exec_op_def all_ops_def)
next
  case True
  then show ?thesis
    apply (simp add: all_ops_def)
    apply (elim disjE)
    apply (simp_all add: exec_op_def jump_if_with_pipe cong: option.case_cong)
    apply (simp_all add: bindE_def advance_def write_reg_def setFlags_def with_pipe_def Let_def
           split: sum.split option.split)
    done
qed


lemma executeInstruction_with_pipe:
  "executeInstruction i (with_pipe t s) = map_option (map_prod id (with_pipe t)) (executeInstruction i s)"
proof -
  have c: "\<And>n. (with_pipe t s)\<lparr>cycles := n\<rparr> = with_pipe t (s\<lparr>cycles := n\<rparr>)"
    by (simp add: with_pipe_def)
  show ?thesis
  proof (cases i)
    case None
    then show ?thesis by (simp add: executeInstruction_def)
  next
    case (Some instr)
    show ?thesis
    proof (cases "split_parts instr")
      case Nil
      with Some show ?thesis by (simp add: executeInstruction_def)
    next
      case (Cons p0 ps)
      with Some show ?thesis
        by (cases "exec_op (toUpperCase p0) (p0 # ps) (s\<lparr>cycles := cycles s + 1\<rparr>)")
           (auto simp: executeInstruction_def Let_def c exec_op_with_pipe split: sum.split)
    qed
  qed
qed


lemma same_arch_refl [simp]: "same_arch s s"
  by (simp add: same_arch_def)

lemma same_arch_sym: "same_arch s t \<Longrightarrow> same_arch t s"
  by (simp add: same_arch_def)

lemma same_arch_trans: "same_arch s t \<Longrightarrow> same_arch t u \<Longrightarrow> same_arch s u"
  by (simp add: same_arch_def)

lemma same_arch_with_pipe [simp]: "same_arch (with_pipe t s) s"
  by (simp add: same_arch_def)

lemma generateMicroOps_arch: "same_arch s t \<Longrightarrow> generateMicroOps t i = generateMicroOps s i"
  using generateMicroOps_with_pipe [of t s i] by (simp add: with_pipe_same)

lemma executeInstruction_arch:
  assumes "same_arch s t"
  shows "rel_option (\<lambda>(e1, s1) (e2, t1). e1 = e2 \<and> same_arch s1 t1)
           (executeInstruction i s) (executeInstruction i t)"
proof -
  have "executeInstruction i t = map_option (map_prod id (with_pipe t)) (executeInstruction i s)"
    using executeInstruction_with_pipe [of i t s] with_pipe_same [OF assms] by simp
  then show ?thesis
    by (cases "executeInstruction i s") (auto intro: same_arch_sym)
qed

lemma try_execute_arch:
  assumes st: "same_arch s t" and f: "\<And>x. same_arch (f x) x" and g: "\<And>x. same_arch (g x) x"
  shows "rel_option (\<lambda>(b1, s1) (b2, t1). b1 = b2 \<and> same_arch s1 t1)
           (try_execute i f s) (try_execute i g t)"
proof (cases "executeInstruction i s")
  case None
  with executeInstruction_arch [OF st, of i] show ?thesis
    by (simp add: try_execute_def)
next
  case (Some r)
  obtain e s1 where r: "r = (e, s1)" by (cases r)
  from Some r executeInstruction_arch [OF st, of i]
  obtain t1 where t1: "executeInstruction i t = Some (e, t1)" and a: "same_arch s1 t1"
    by (cases "executeInstruction i t") auto
  show ?thesis
  proof (cases e)
    case None
    have "same_arch (f s1) (g t1)"
      using same_arch_trans [OF f [of s1]] same_arch_trans [OF a same_arch_sym [OF g [of t1]]]
      by blast
    with None Some r t1 show ?thesis by (simp add: try_execute_def)
  next
    case (Some err)
    with \<open>executeInstruction i s = Some r\<close> r t1 a show ?thesis
      by (simp add: try_execute_def same_arch_def emit_def)
  qed
qed

lemma start_instruction_pending:
  "currentMicroOpIndex t < length (microOps t) \<Longrightarrow> start_instruction t = Inr t"
  by (simp add: start_instruction_def)

lemma start_instruction_boundary:
  assumes "length (microOps s) \<le> currentMicroOpIndex s"
    and gen: "generateMicroOps s (program_at s) = r"
  shows "start_instruction s =
           (case r of
              Inl e \<Rightarrow> Inl (e, s\<lparr>instructionRegister := program_at s\<rparr>)
            | Inr ops \<Rightarrow> Inr (s\<lparr>instructionRegister := program_at s, microOps := ops,
                                 currentMicroOpIndex := 0\<rparr>))"
proof -
  have "same_arch s (s\<lparr>instructionRegister := program_at s\<rparr>)"
    by (simp add: same_arch_def)
  from generateMicroOps_arch [OF this] gen
  have "generateMicroOps (s\<lparr>instructionRegister := program_at s\<rparr>) (program_at s) = r"
    by simp
  with assms(1) show ?thesis
    by (simp add: start_instruction_def Let_def)
qed

lemma perform_micro_mid:
  assumes "Suc (currentMicroOpIndex t) < length (microOps t)"
  shows "\<exists>t'. perform_micro t = Some (Returns (Some (microOps t ! currentMicroOpIndex t)), t')
           \<and> same_arch t' t \<and> microOps t' = microOps t
           \<and> instructionRegister t' = instructionRegister t
           \<and> currentMicroOpIndex t' = Suc (currentMicroOpIndex t)"
  using assms by (simp add: perform_micro_def Let_def emit_def same_arch_def)

lemma perform_micro_last:
  assumes "Suc (currentMicroOpIndex t) = length (microOps t)"
  shows "\<exists>t4. same_arch t4 t \<and> emitted t4 = emitted t @ [EvMicro
                (getState (t\<lparr>currentStage := stage (microOps t ! currentMicroOpIndex t),
                        currentMicroOpIndex := currentMicroOpIndex t + 1\<rparr>))
                (instructionRegister t) (microOps t ! currentMicroOpIndex t)]
           \<and> instructionRegister t4 = instructionRegister t \<and>
           perform_micro t =
             (case try_execute (instructionRegister t) micro_success t4 of
                None \<Rightarrow> None
              | Some (ok, s') \<Rightarrow> Some (Returns (Some (microOps t ! currentMicroOpIndex t)), s'))"
proof -
  define t3 where "t3 = t\<lparr>currentStage := stage (microOps t ! currentMicroOpIndex t),
                          currentMicroOpIndex := currentMicroOpIndex t + 1\<rparr>"
  define t4 where "t4 = (emit (EvMicro (getState t3) (instructionRegister t3)
                           (microOps t ! currentMicroOpIndex t)) t3)
                        \<lparr>previousRegisters := registers t3\<rparr>"
  have a: "same_arch t4 t" "instructionRegister t4 = instructionRegister t"
    "emitted t4 = emitted t @ [EvMicro (getState t3) (instructionRegister t)
                           (microOps t ! currentMicroOpIndex t)]"
    by (simp_all add: t4_def t3_def emit_def same_arch_def)
  have "perform_micro t =
             (case try_execute (instructionRegister t) micro_success t4 of
                None \<Rightarrow> None
              | Some (ok, s') \<Rightarrow> Some (Returns (Some (microOps t ! currentMicroOpIndex t)), s'))"
    using assms
    by (simp add: perform_micro_def Let_def t4_def t3_def emit_def cong: option.case_cong)
  with a show ?thesis unfolding t3_def by blast
qed

lemma microStep_running:
  "\<not> halted t \<Longrightarrow> pc t < int (length (program t)) \<Longrightarrow>
   microStep t = (case start_instruction t of
                    Inl (e, s1) \<Rightarrow> Some (Throws e, s1) | Inr s2 \<Rightarrow> perform_micro s2)"
  by (simp add: microStep_def)

lemma microStep_mid:
  assumes "\<not> halted t" and "pc t < int (length (program t))"
    and "Suc (currentMicroOpIndex t) < length (microOps t)"
  shows "\<exists>t'. microStep t = Some (Returns (Some (microOps t ! currentMicroOpIndex t)), t')
           \<and> same_arch t' t \<and> microOps t' = microOps t
           \<and> instructionRegister t' = instructionRegister t
           \<and> currentMicroOpIndex t' = Suc (currentMicroOpIndex t)"
  using perform_micro_mid [OF assms(3)] assms
  by (simp add: microStep_running start_instruction_pending)

lemma generateMicroOps_length:
  "generateMicroOps s i = Inr ops \<Longrightarrow> Suc 0 < length ops"
  by (auto simp: generateMicroOps_def Let_def bindE_def split: option.splits list.splits sum.splits)

lemma microStep_start:
  assumes "\<not> halted s" and "pc s < int (length (program s))"
    and "length (microOps s) \<le> currentMicroOpIndex s"
    and gen: "generateMicroOps s (program_at s) = Inr ops"
  shows "\<exists>t'. microStep s = Some (Returns (Some (ops ! 0)), t')
           \<and> same_arch t' s \<and> microOps t' = ops
           \<and> instructionRegister t' = program_at s
           \<and> currentMicroOpIndex t' = 1"
proof -
  let ?s2 = "s\<lparr>instructionRegister := program_at s, microOps := ops, currentMicroOpIndex := 0\<rparr>"
  have st: "start_instruction s = Inr ?s2"
    using start_instruction_boundary [OF assms(3) gen] by simp
  have "Suc (currentMicroOpIndex ?s2) < length (microOps ?s2)"
    using generateMicroOps_length [OF gen] by simp
  from perform_micro_mid [OF this]
  obtain t' where "perform_micro ?s2 = Some (Returns (Some (ops ! 0)), t')"
    "same_arch t' ?s2" "microOps t' = ops" "instructionRegister t' = program_at s"
    "currentMicroOpIndex t' = 1"
    by auto
  moreover have "same_arch ?s2 s" by (simp add: same_arch_def)
  ultimately show ?thesis
    using assms(1,2) st by (auto simp: microStep_running intro: same_arch_trans)
qed

lemma microSteps_mid:
  assumes "\<not> halted t" and "pc t < int (length (program t))"
    and "currentMicroOpIndex t + k < length (microOps t)"
  shows "\<exists>t'. microSteps k t = Some (Returns (), t')
           \<and> same_arch t' t \<and> microOps t' = microOps t
           \<and> instructionRegister t' = instructionRegister t
           \<and> currentMicroOpIndex t' = currentMicroOpIndex t + k"
  using assms
proof (induction k arbitrary: t)
  case 0
  then show ?case by simp
next
  case (Suc k)
  from Suc.prems have "Suc (currentMicroOpIndex t) < length (microOps t)" by simp
  from microStep_mid [OF Suc.prems(1,2) this]
  obtain t1 where t1: "microStep t = Some (Returns (Some (microOps t ! currentMicroOpIndex t)), t1)"
    and a1: "same_arch t1 t" and m1: "microOps t1 = microOps t"
    and i1: "instructionRegister t1 = instructionRegister t"
    and c1: "currentMicroOpIndex t1 = Suc (currentMicroOpIndex t)"
    by blast
  from a1 Suc.prems have p1: "\<not> halted t1" "pc t1 < int (length (program t1))"
    by (simp_all add: same_arch_def)
  from Suc.prems m1 c1 have "currentMicroOpIndex t1 + k < length (microOps t1)" by simp
  from Suc.IH [OF p1 this]
  obtain t' where "microSteps k t1 = Some (Returns (), t')" "same_arch t' t1"
    "microOps t' = microOps t1" "instructionRegister t' = instructionRegister t1"
    "currentMicroOpIndex t' = currentMicroOpIndex t1 + k"
    by blast
  with t1 a1 m1 i1 c1 show ?case
    by (auto intro: same_arch_trans)
qed

lemma microSteps_prefix:
  assumes b: "\<not> halted s" "pc s < int (length (program s))"
      "length (microOps s) \<le> currentMicroOpIndex s"
    and gen: "generateMicroOps s (program_at s) = Inr ops"
    and k: "0 < k" "k < length ops"
  shows "\<exists>t. microSteps k s = Some (Returns (), t) \<and> same_arch t s \<and> microOps t = ops
           \<and> instructionRegister t = program_at s \<and> currentMicroOpIndex t = k"
proof -
  from k obtain j where j: "k = Suc j" by (cases k) auto
  from microStep_start [OF b gen]
  obtain t1 where t1: "microStep s = Some (Returns (Some (ops ! 0)), t1)"
    and a1: "same_arch t1 s" and m1: "microOps t1 = ops"
    and i1: "instructionRegister t1 = program_at s" and c1: "currentMicroOpIndex t1 = 1"
    by blast
  from a1 b have p1: "\<not> halted t1" "pc t1 < int (length (program t1))"
    by (simp_all add: same_arch_def)
  from k j m1 c1 have "currentMicroOpIndex t1 + j < length (microOps t1)" by simp
  from microSteps_mid [OF p1 this]
  obtain t where "microSteps j t1 = Some (Returns (), t)" "same_arch t t1"
    "microOps t = microOps t1" "instructionRegister t = instructionRegister t1"
    "currentMicroOpIndex t = currentMicroOpIndex t1 + j"
    by blast
  with t1 a1 m1 i1 c1 j show ?thesis
    by (auto intro: same_arch_trans)
qed

lemma microSteps_Suc_end:
  "microSteps k s = Some (Returns (), t) \<Longrightarrow>
   microSteps (Suc k) s =
     (case microStep t of
        None \<Rightarrow> None
      | Some (Throws e, s') \<Rightarrow> Some (Throws e, s')
      | Some (Returns m, s') \<Rightarrow> Some (Returns (), s'))"
proof (induction k arbitrary: s)
  case 0
  then show ?case
    by (auto split: option.split prod.split completion.split)
next
  case (Suc k)
  from Suc.prems obtain m s1 where s1: "microStep s = Some (Returns m, s1)"
    and r: "microSteps k s1 = Some (Returns (), t)"
    by (auto split: option.splits prod.splits completion.splits)
  from Suc.IH [OF r] s1 show ?case by simp
qed

lemma same_arch_micro_success: "same_arch (micro_success x) x"
  by (simp add: micro_success_def Let_def emit_def same_arch_def)

lemma same_arch_step_success: "same_arch (step_success i x) x"
  by (simp add: step_success_def Let_def emit_def same_arch_def)

lemma step_running:
  assumes "\<not> halted s" and "pc s < int (length (program s))"
    and gen: "generateMicroOps s (program_at s) = r"
  shows "step s =
     (case r of
        Inl e \<Rightarrow> Some (Throws e, s\<lparr>previousRegisters := registers s,
                                     instructionRegister := program_at s\<rparr>)
      | Inr ops \<Rightarrow>
          (case try_execute (program_at s) (step_success (program_at s))
                  (s\<lparr>previousRegisters := registers s, instructionRegister := program_at s,
                     microOps := ops\<rparr>) of
             None \<Rightarrow> None
           | Some (True, s') \<Rightarrow> Some (Returns (\<not> halted s'), s')
           | Some (False, s') \<Rightarrow> Some (Returns False, s')))"
proof -
  have "same_arch s (s\<lparr>previousRegisters := registers s, instructionRegister := program_at s\<rparr>)"
    by (simp add: same_arch_def)
  from generateMicroOps_arch [OF this] gen
  have "generateMicroOps (s\<lparr>previousRegisters := registers s,
           instructionRegister := program_at s\<rparr>) (program_at s) = r"
    by simp
  with assms(1,2) show ?thesis
    by (simp add: step_def Let_def)
qed

text \<open>The last micro-step against \<open>step\<close>, for an instruction whose micro-operations
  are \<open>ops\<close>.\<close>

lemma microSteps_all_vs_step:
  assumes b: "\<not> halted s" "pc s < int (length (program s))"
      "length (microOps s) \<le> currentMicroOpIndex s"
    and gen: "generateMicroOps s (program_at s) = Inr ops"
  shows "case step s of
           None \<Rightarrow> microSteps (length ops) s = None
         | Some (c, s1) \<Rightarrow>
             (\<exists>r. c = Returns r)
             \<and> (\<exists>s2. microSteps (length ops) s = Some (Returns (), s2) \<and> same_arch s2 s1)"
proof -
  let ?n = "length ops"
  have n2: "Suc 0 < ?n" by (rule generateMicroOps_length [OF gen])
  then have "0 < ?n - 1" "?n - 1 < ?n" by simp_all
  from microSteps_prefix [OF b gen this]
  obtain t where t: "microSteps (?n - 1) s = Some (Returns (), t)" and at: "same_arch t s"
    and mt: "microOps t = ops" and it: "instructionRegister t = program_at s"
    and ct: "currentMicroOpIndex t = ?n - 1"
    by blast
  from at b have pt: "\<not> halted t" "pc t < int (length (program t))"
    by (simp_all add: same_arch_def)
  from n2 mt ct have lt: "Suc (currentMicroOpIndex t) = length (microOps t)" by simp
  then have "currentMicroOpIndex t < length (microOps t)" by simp
  then have ms: "microStep t = perform_micro t"
    using pt by (simp add: microStep_running start_instruction_pending)
  from perform_micro_last [OF lt] it ms
  obtain t4 where a4: "same_arch t4 t"
    and last: "microStep t =
             (case try_execute (program_at s) micro_success t4 of
                None \<Rightarrow> None
              | Some (ok, s') \<Rightarrow> Some (Returns (Some (microOps t ! currentMicroOpIndex t)), s'))"
    by auto
  from n2 have sn: "Suc (?n - 1) = ?n" by simp
  have "microSteps (Suc (?n - 1)) s =
     (case microStep t of
        None \<Rightarrow> None
      | Some (Throws e, s') \<Rightarrow> Some (Throws e, s')
      | Some (Returns m, s') \<Rightarrow> Some (Returns (), s'))"
    by (rule microSteps_Suc_end [OF t])
  then have "microSteps ?n s =
     (case microStep t of
        None \<Rightarrow> None
      | Some (Throws e, s') \<Rightarrow> Some (Throws e, s')
      | Some (Returns m, s') \<Rightarrow> Some (Returns (), s'))"
    by (simp only: sn)
  then have whole: "microSteps ?n s =
     (case try_execute (program_at s) micro_success t4 of
        None \<Rightarrow> None | Some (ok, s') \<Rightarrow> Some (Returns (), s'))"
    by (simp only: last) (simp split: option.split prod.split)
  define s1 where "s1 = s\<lparr>previousRegisters := registers s, instructionRegister := program_at s,
                          microOps := ops\<rparr>"
  have stp: "step s =
     (case try_execute (program_at s) (step_success (program_at s)) s1 of
        None \<Rightarrow> None
      | Some (True, s') \<Rightarrow> Some (Returns (\<not> halted s'), s')
      | Some (False, s') \<Rightarrow> Some (Returns False, s'))"
    using step_running [OF b(1,2) gen] by (simp add: s1_def)
  have a1: "same_arch s1 t4"
    using a4 at by (simp add: same_arch_def s1_def)
  from try_execute_arch [OF a1 same_arch_step_success same_arch_micro_success, of "program_at s"]
  have rel: "rel_option (\<lambda>(b1, x1) (b2, y1). b1 = b2 \<and> same_arch x1 y1)
           (try_execute (program_at s) (step_success (program_at s)) s1)
           (try_execute (program_at s) micro_success t4)" .
  show ?thesis
  proof (cases "try_execute (program_at s) (step_success (program_at s)) s1")
    case None
    with rel have "try_execute (program_at s) micro_success t4 = None"
      by (cases "try_execute (program_at s) micro_success t4") auto
    with None stp whole show ?thesis by simp
  next
    case (Some r)
    obtain ok x1 where r: "r = (ok, x1)" by (cases r)
    from Some r rel obtain y1 where y: "try_execute (program_at s) micro_success t4 = Some (ok, y1)"
      and xy: "same_arch x1 y1"
      by (cases "try_execute (program_at s) micro_success t4") auto
    from Some r y xy stp whole show ?thesis
      by (cases ok) (auto intro: same_arch_sym)
  qed
qed


section \<open>Micro-steps against \<open>step\<close>\<close>

text \<open>
  What holds between a run of micro-steps and \<open>step\<close>. Take a CPU that is not
  halted, whose \<open>pc\<close> is below the program length, and that stands between two
  instructions: no micro-operation of an earlier instruction is pending
  (\<open>currentMicroOpIndex\<close> has reached the length of \<open>microOps\<close>), which is the
  state that \<open>loadProgram\<close>, \<open>reset\<close> and the last micro-step of an instruction
  leave. If generating the micro-operations of the instruction throws, \<open>step\<close> and
  \<open>microStep\<close> throw the same error and leave the architectural state (registers,
  memory, PC, SP, flags, halted, cycles, program, labels, Compute Unit) as it was.
  Otherwise let \<open>ops\<close> be the micro-operations: every shorter run of micro-steps
  returns and leaves the architectural state as it was, and the run of \<open>length ops\<close>
  micro-steps returns exactly when \<open>step\<close> returns, with the same architectural state.
\<close>

lemma microSteps_refine_step:
  assumes b: "\<not> halted s" "pc s < int (length (program s))"
      "length (microOps s) \<le> currentMicroOpIndex s"
  shows "case generateMicroOps s (program_at s) of
           Inl e \<Rightarrow>
             (\<exists>s1 s2. step s = Some (Throws e, s1) \<and> microStep s = Some (Throws e, s2)
                       \<and> same_arch s1 s \<and> same_arch s2 s)
         | Inr ops \<Rightarrow>
             (\<forall>k<length ops. \<exists>t. microSteps k s = Some (Returns (), t) \<and> same_arch t s)
             \<and> (case step s of
                  None \<Rightarrow> microSteps (length ops) s = None
                | Some (c, s1) \<Rightarrow>
                    (\<exists>r. c = Returns r)
                    \<and> (\<exists>s2. microSteps (length ops) s = Some (Returns (), s2) \<and> same_arch s2 s1))"
proof (cases "generateMicroOps s (program_at s)")
  case (Inl e)
  from step_running [OF b(1,2) Inl] start_instruction_boundary [OF b(3) Inl] b(1,2) Inl
  show ?thesis
    by (simp add: microStep_running same_arch_def)
next
  case (Inr ops)
  have pre: "\<forall>k<length ops. \<exists>t. microSteps k s = Some (Returns (), t) \<and> same_arch t s"
  proof (intro allI impI)
    fix k assume k: "k < length ops"
    show "\<exists>t. microSteps k s = Some (Returns (), t) \<and> same_arch t s"
    proof (cases k)
      case 0
      then show ?thesis by simp
    next
      case (Suc j)
      with microSteps_prefix [OF b Inr _ k] show ?thesis by blast
    qed
  qed
  with microSteps_all_vs_step [OF b Inr] Inr show ?thesis by simp
qed

lemma microSteps_refine_step_example:
  "\<exists>s1 s2. step (loadProgram [''MOV R0, 1''] Map.empty new_CPU) = Some (Returns True, s1)
      \<and> microSteps 4 (loadProgram [''MOV R0, 1''] Map.empty new_CPU) = Some (Returns (), s2)
      \<and> same_arch s2 s1"
proof -
  let ?s = "loadProgram [''MOV R0, 1''] Map.empty new_CPU"
  let ?ops = "[mop Fetch None None, mop Decode (Some ''MOV'') None, mop Execute None (Some 1),
               mop Writeback None (Some 1)]"
  have h1: "\<not> halted ?s" by code_simp
  have h2: "pc ?s < int (length (program ?s))" by code_simp
  have h3: "length (microOps ?s) \<le> currentMicroOpIndex ?s" by code_simp
  have g: "generateMicroOps ?s (program_at ?s) = Inr ?ops" by code_simp
  have r: "(case step ?s of Some (Returns True, s1) \<Rightarrow> True | _ \<Rightarrow> False)" by code_simp
  have l: "length ?ops = 4" by simp
  from microSteps_refine_step [OF h1 h2 h3, unfolded g sum.case]
  have "case step ?s of
              None \<Rightarrow> microSteps (length ?ops) ?s = None
            | Some (c, s1) \<Rightarrow>
                (\<exists>r. c = Returns r)
                \<and> (\<exists>s2. microSteps (length ?ops) ?s = Some (Returns (), s2) \<and> same_arch s2 s1)"
    by (rule conjunct2)
  from this [unfolded l] r show ?thesis
    by (auto simp del: microSteps.simps
             split: option.splits prod.splits completion.splits bool.splits)
qed

text \<open>
  Claim C1, at the input where the code departs from it. \<open>step\<close> returns to the idle
  stage but, unlike the last micro-step of an instruction, does not empty \<open>microOps\<close>
  nor reset \<open>currentMicroOpIndex\<close>. So the state that one \<open>step\<close> of the program
  \<open>INC R0; HALT\<close> leaves is not halted, has 1 in \<open>R0\<close>, stands at the HALT
  instruction (which has three micro-operations), and still holds the five
  micro-operations of \<open>INC R0\<close> at index 0. From that state one more \<open>step\<close>
  executes HALT: the CPU is halted with 1 in \<open>R0\<close>. Micro-steps from the same state
  replay the stale list instead: three of them change nothing, and the fifth executes
  \<open>INC R0\<close> a second time, leaving 2 in \<open>R0\<close>, the PC past HALT and the CPU not
  halted.
\<close>

theorem step_then_microSteps_replay_instruction:
  "(case step (loadProgram [''INC R0'', ''HALT''] Map.empty new_CPU) of
      Some (Returns b, s1) \<Rightarrow>
        halted s1 = False \<and> pc s1 = 1 \<and> registers s1 0 = 1
        \<and> length (microOps s1) = 5 \<and> currentMicroOpIndex s1 = 0
        \<and> program_at s1 = Some ''HALT''
        \<and> (case generateMicroOps s1 (program_at s1) of
             Inr ops \<Rightarrow> length ops = 3 | Inl e \<Rightarrow> False)
        \<and> (case step s1 of
             Some (Returns b', t1) \<Rightarrow> halted t1 = True \<and> registers t1 0 = 1 \<and> pc t1 = 2
           | _ \<Rightarrow> False)
        \<and> (case microSteps 3 s1 of
             Some (Returns u, t2) \<Rightarrow> halted t2 = False \<and> registers t2 0 = 1 \<and> pc t2 = 1
           | _ \<Rightarrow> False)
        \<and> (case microSteps 5 s1 of
             Some (Returns u, t3) \<Rightarrow> halted t3 = False \<and> registers t3 0 = 2 \<and> pc t3 = 2
           | _ \<Rightarrow> False)
    | _ \<Rightarrow> False)"
  by code_simp

section \<open>Division by zero\<close>

lemma parseValue_cycles [simp]: "parseValue (s\<lparr>cycles := n\<rparr>) p = parseValue s p"
  by (simp add: parseValue_def Let_def split: option.split)

lemma part_simps [simp]:
  "part (p0 # ps) 0 = Some p0"
  "part (p0 # p1 # ps) (Suc 0) = Some p1"
  "part (p0 # p1 # p2 # ps) 2 = Some p2"
  by (simp_all add: part_def)

lemma div_mod_micro_ops:
  assumes "op = ''DIV'' \<or> op = ''MOD''"
    and "getRegisterIndex (Some dest) = Inr d" and "parseValue s (Some src) = Inr v"
  shows "\<exists>ops. execute_ops s op (p0 # dest # src # rest) = Inr ops \<and> length ops = 4"
  using assms(2,3) assms(1)
  by (elim disjE) (simp_all add: execute_ops_def bindE_def Let_def)

lemma div_mod_generate:
  assumes "split_parts instr = p0 # dest # src # rest"
    and "toUpperCase p0 = ''DIV'' \<or> toUpperCase p0 = ''MOD''"
    and "getRegisterIndex (Some dest) = Inr d" and "parseValue s (Some src) = Inr v"
  shows "\<exists>ops. generateMicroOps s (Some instr) = Inr ops \<and> length ops = 6"
proof -
  from div_mod_micro_ops [OF assms(2-4)]
  obtain ops where "execute_ops s (toUpperCase p0) (p0 # dest # src # rest) = Inr ops"
    "length ops = 4"
    by blast
  with assms(1) show ?thesis
    by (simp add: generateMicroOps_def Let_def bindE_def)
qed

lemma exec_op_div_mod_by_zero:
  assumes "op = ''DIV'' \<or> op = ''MOD''"
    and "getRegisterIndex (Some dest) = Inr d" and "parseValue s (Some src) = Inr 0"
  shows "exec_op op (p0 # dest # src # rest) s = Some (Inl DivisionByZero)"
  using assms(2,3) assms(1)
  by (elim disjE) (simp_all add: exec_op_def bindE_def)

lemma div_mod_by_zero_throws:
  assumes "split_parts instr = p0 # dest # src # rest"
    and "toUpperCase p0 = ''DIV'' \<or> toUpperCase p0 = ''MOD''"
    and "getRegisterIndex (Some dest) = Inr d" and "parseValue s (Some src) = Inr 0"
  shows "executeInstruction (Some instr) s = Some (Some DivisionByZero, s\<lparr>cycles := cycles s + 1\<rparr>)"
proof -
  have "parseValue (s\<lparr>cycles := cycles s + 1\<rparr>) (Some src) = Inr 0"
    using assms(4) by simp
  from exec_op_div_mod_by_zero [OF assms(2,3) this] assms(1) show ?thesis
    by (simp add: executeInstruction_def Let_def)
qed

lemma parseValue_arch: "same_arch s t \<Longrightarrow> parseValue t p = parseValue s p"
  using parseValue_with_pipe [of t s p] by (simp add: with_pipe_same)

text \<open>
  Claim C2. Let the instruction at \<open>pc\<close> be a DIV or MOD whose destination names a
  register and whose divisor operand evaluates to 0. Then \<open>step\<close> returns with the CPU
  halted and exactly one new event, the error event "Division by zero"; every register
  (the destination among them), the memory, the flags, PC and SP are as before. When the
  CPU stands between two instructions, the six micro-steps of the instruction end in the
  same way: halted, every register as before.
\<close>

theorem division_by_zero_is_fatal:
  assumes nh: "\<not> halted s" and pc0: "0 \<le> pc s" and run: "pc s < int (length (program s))"
    and parts: "split_parts (program s ! nat (pc s)) = p0 # dest # src # rest"
    and op: "toUpperCase p0 = ''DIV'' \<or> toUpperCase p0 = ''MOD''"
    and dest: "getRegisterIndex (Some dest) = Inr d"
    and zero: "parseValue s (Some src) = Inr 0"
  shows "(\<exists>s'. step s = Some (Returns False, s') \<and> halted s'
            \<and> (\<exists>st. new_events s s' = [EvError st (program_at s) DivisionByZero])
            \<and> registers s' = registers s \<and> memory s' = memory s \<and> flags s' = flags s
            \<and> pc s' = pc s \<and> sp s' = sp s)
       \<and> (length (microOps s) \<le> currentMicroOpIndex s \<longrightarrow>
            (\<exists>s'. microSteps 6 s = Some (Returns (), s') \<and> halted s'
               \<and> registers s' = registers s \<and> memory s' = memory s \<and> flags s' = flags s
               \<and> pc s' = pc s \<and> sp s' = sp s))"
proof -
  let ?instr = "program s ! nat (pc s)"
  have at: "program_at s = Some ?instr" using pc0 run by (simp add: program_at_def)
  from div_mod_generate [OF parts op dest zero]
  obtain ops where gen: "generateMicroOps s (program_at s) = Inr ops" and len: "length ops = 6"
    by (auto simp: at)
  let ?s1 = "s\<lparr>previousRegisters := registers s, instructionRegister := program_at s,
                 microOps := ops\<rparr>"
  have "parseValue ?s1 (Some src) = Inr 0"
    using zero parseValue_arch [of s ?s1 "Some src"] by (simp add: same_arch_def)
  from div_mod_by_zero_throws [OF parts op dest this]
  have ex: "executeInstruction (program_at s) ?s1
              = Some (Some DivisionByZero, ?s1\<lparr>cycles := cycles ?s1 + 1\<rparr>)"
    by (simp add: at)
  let ?s' = "(emit (EvError (getState (?s1\<lparr>cycles := cycles ?s1 + 1\<rparr>)) (program_at s)
                DivisionByZero) (?s1\<lparr>cycles := cycles ?s1 + 1\<rparr>))\<lparr>halted := True\<rparr>"
  have st: "step s = Some (Returns False, ?s')"
    using step_running [OF nh run gen] ex by (simp add: try_execute_def)
  have first: "\<exists>s'. step s = Some (Returns False, s') \<and> halted s'
            \<and> (\<exists>st. new_events s s' = [EvError st (program_at s) DivisionByZero])
            \<and> registers s' = registers s \<and> memory s' = memory s \<and> flags s' = flags s
            \<and> pc s' = pc s \<and> sp s' = sp s"
    using st by (simp add: new_events_def emit_def)
  have second: "\<exists>s'. microSteps 6 s = Some (Returns (), s') \<and> halted s'
               \<and> registers s' = registers s \<and> memory s' = memory s \<and> flags s' = flags s
               \<and> pc s' = pc s \<and> sp s' = sp s"
    if b: "length (microOps s) \<le> currentMicroOpIndex s"
  proof -
    from microSteps_all_vs_step [OF nh run b gen] st len
    obtain s2 where "microSteps 6 s = Some (Returns (), s2)" and "same_arch s2 ?s'"
      by auto
    then show ?thesis
      by (auto simp: same_arch_def emit_def)
  qed
  from first second show ?thesis by blast
qed

theorem division_by_zero_is_fatal_witness:
  "(\<exists>s'. step (loadProgram [''MOV R1, 7'', ''MOD R1, R0''] Map.empty new_CPU
                  \<lparr>pc := 1, registers := (\<lambda>i. 0)(1 := 7)\<rparr>) = Some (Returns False, s')
          \<and> halted s' \<and> registers s' 1 = 7)
   \<and> (\<exists>s'. microSteps 6 (loadProgram [''MOV R1, 7'', ''MOD R1, R0''] Map.empty new_CPU
                  \<lparr>pc := 1, registers := (\<lambda>i. 0)(1 := 7)\<rparr>) = Some (Returns (), s')
          \<and> halted s' \<and> registers s' 1 = 7)"
proof -
  let ?s = "loadProgram [''MOV R1, 7'', ''MOD R1, R0''] Map.empty new_CPU
              \<lparr>pc := 1, registers := (\<lambda>i. 0)(1 := 7)\<rparr>"
  have nh: "\<not> halted ?s" by code_simp
  have pc0: "0 \<le> pc ?s" by code_simp
  have run: "pc ?s < int (length (program ?s))" by code_simp
  have parts: "split_parts (program ?s ! nat (pc ?s)) = ''MOD'' # ''R1'' # ''R0'' # []"
    by code_simp
  have op: "toUpperCase ''MOD'' = ''DIV'' \<or> toUpperCase ''MOD'' = ''MOD''" by code_simp
  have dest: "getRegisterIndex (Some ''R1'') = Inr 1" by code_simp
  have zero: "parseValue ?s (Some ''R0'') = Inr 0" by code_simp
  have b: "length (microOps ?s) \<le> currentMicroOpIndex ?s" by code_simp
  have r: "registers ?s 1 = 7" by code_simp
  from division_by_zero_is_fatal [OF nh pc0 run parts op dest zero] b r show ?thesis
    by (auto simp del: microSteps.simps)
qed

section \<open>Flags and the destination register\<close>

lemma toInt32_signed: "toInt32 x = signed_take_bit 31 x"
proof -
  define m where "m = x mod 4294967296"
  have m: "0 \<le> m" "m < 4294967296" by (simp_all add: m_def)
  have e: "(x + 2147483648) mod 4294967296 = (m + 2147483648) mod 4294967296"
    by (simp add: m_def mod_add_left_eq)
  have s: "(m + 2147483648) mod 4294967296 - 2147483648
           = (if 2147483648 \<le> m then m - 4294967296 else m)"
  proof (cases "2147483648 \<le> m")
    case True
    have "(m + 2147483648) mod 4294967296 = (m + 2147483648 - 4294967296) mod 4294967296"
      by (simp only: minus_mod_self2)
    also have "\<dots> = m + 2147483648 - 4294967296"
      using True m by (intro mod_pos_pos_trivial) simp_all
    finally show ?thesis using True by simp
  next
    case False
    then have "(m + 2147483648) mod 4294967296 = m + 2147483648"
      using m by (intro mod_pos_pos_trivial) simp_all
    with False show ?thesis by simp
  qed
  have "signed_take_bit 31 x = take_bit 32 (x + 2 ^ 31) - 2 ^ 31"
    using signed_take_bit_eq_take_bit_shift [of 31 x] by simp
  also have "\<dots> = (x + 2147483648) mod 4294967296 - 2147483648"
    by (simp add: take_bit_eq_mod)
  also have "\<dots> = toInt32 x"
    by (simp only: e s) (simp add: toInt32_def Let_def m_def)
  finally show ?thesis by simp
qed

lemma toInt32_small: "0 \<le> k \<Longrightarrow> k < 2147483648 \<Longrightarrow> toInt32 k = k"
  by (simp add: toInt32_def Let_def)

lemma mask16_mod: "mask16 x = x mod 65536"
proof -
  have "mask16 x = signed_take_bit 31 x AND mask 16"
    by (simp add: mask16_def js_and_def toInt32_small mask_eq_exp_minus_1)
       (simp add: toInt32_signed)
  also have "\<dots> = take_bit 16 (signed_take_bit 31 x)"
    by (simp add: take_bit_eq_mask)
  also have "\<dots> = take_bit 16 x"
    by (simp add: take_bit_signed_take_bit)
  finally show ?thesis by (simp add: take_bit_eq_mod)
qed

lemma js_and_bit15: "(js_and v 32768 \<noteq> 0) = bit v 15"
proof -
  have "js_and v 32768 = signed_take_bit 31 v AND 32768"
    by (simp add: js_and_def toInt32_small) (simp add: toInt32_signed)
  moreover have "(signed_take_bit 31 v AND 32768 = 0) = (\<not> bit (signed_take_bit 31 v) 15)"
    using and_exp_eq_0_iff_not_bit [of "signed_take_bit 31 v" 15] by simp
  ultimately have "(js_and v 32768 \<noteq> 0) = bit (signed_take_bit 31 v) 15"
    by simp
  also have "\<dots> = bit v 15"
    by (simp add: bit_signed_take_bit_iff)
  finally show ?thesis .
qed

lemma flags_setFlags: "flags (setFlags v s) = flags_of v"
  by (simp add: setFlags_def flags_of_def js_and_bit15)


lemma after_alu [simp]:
  "flags (advance s) = flags s" "registers (advance s) = registers s"
  "registers (setFlags v s) = registers s"
  "flags (write_reg d v s) = flags s" "registers (write_reg d v s) = (registers s)(d := v)"
  by (simp_all add: advance_def setFlags_def write_reg_def)

lemma exec_op_arith:
  assumes "op \<in> set [''ADD'', ''SUB'', ''MUL'', ''DIV'', ''MOD'']"
    and "exec_op op parts s = Some (Inr s')"
  shows "\<exists>d v. getRegisterIndex (part parts 1) = Inr d \<and> parseValue s (part parts 2) = Inr v
           \<and> flags s' = flags_of (raw_result op (registers s d) v)
           \<and> registers s' = (registers s)(d := raw_result op (registers s d) v mod 65536)"
  using assms(2) assms(1)
  apply simp
  apply (elim disjE)
  apply (auto simp: exec_op_def bindE_def raw_result_def Let_def flags_setFlags mask16_mod
           split: sum.splits if_splits)
  done

lemma exec_op_inc_dec:
  assumes "op \<in> set [''INC'', ''DEC'']"
    and "exec_op op parts s = Some (Inr s')"
  shows "\<exists>d. getRegisterIndex (part parts 1) = Inr d
           \<and> flags s' = flags_of (raw_result op (registers s d) 0)
           \<and> registers s' = (registers s)(d := raw_result op (registers s d) 0 mod 65536)"
  using assms(2) assms(1)
  apply simp
  apply (elim disjE)
  apply (auto simp: exec_op_def bindE_def raw_result_def Let_def flags_setFlags mask16_mod
           split: sum.splits if_splits)
  done

lemma exec_op_cmp:
  assumes "exec_op ''CMP'' parts s = Some (Inr s')"
  shows "\<exists>a b. parseValue s (part parts 1) = Inr a \<and> parseValue s (part parts 2) = Inr b
           \<and> flags s' = flags_of (raw_result ''CMP'' a b) \<and> registers s' = registers s"
  using assms
  by (auto simp: exec_op_def bindE_def raw_result_def Let_def flags_setFlags
           split: sum.splits if_splits)

lemma exec_op_bitwise:
  assumes "op \<in> set [''AND'', ''OR'', ''XOR'', ''SHR'']"
    and "exec_op op parts s = Some (Inr s')"
  shows "\<exists>d v. getRegisterIndex (part parts 1) = Inr d \<and> parseValue s (part parts 2) = Inr v
           \<and> flags s' = flags_of (raw_result op (registers s d) v)"
  using assms(2) assms(1)
  apply simp
  apply (elim disjE)
  apply (auto simp: exec_op_def bindE_def raw_result_def Let_def flags_setFlags
           split: sum.splits if_splits)
  done

lemma exec_op_not:
  assumes "exec_op ''NOT'' parts s = Some (Inr s')"
  shows "\<exists>d. getRegisterIndex (part parts 1) = Inr d
           \<and> registers s' = (registers s)(d := raw_result ''NOT'' (registers s d) 0 mod 65536)
           \<and> flags s' = flags_of (raw_result ''NOT'' (registers s d) 0 mod 65536)"
  using assms
  by (auto simp: exec_op_def bindE_def raw_result_def Let_def flags_setFlags mask16_mod
           split: sum.splits if_splits)

lemma exec_op_shl:
  assumes "exec_op ''SHL'' parts s = Some (Inr s')"
  shows "\<exists>d v. getRegisterIndex (part parts 1) = Inr d \<and> parseValue s (part parts 2) = Inr v
           \<and> registers s' = (registers s)(d := raw_result ''SHL'' (registers s d) v mod 65536)
           \<and> flags s' = flags_of (raw_result ''SHL'' (registers s d) v mod 65536)"
  using assms
  by (auto simp: exec_op_def bindE_def raw_result_def Let_def flags_setFlags mask16_mod
           split: sum.splits if_splits)

lemma executeInstruction_exec_op:
  assumes "executeInstruction (Some instr) s = Some (None, s')"
    and "split_parts instr = p0 # ps"
  shows "exec_op (toUpperCase p0) (p0 # ps) (s\<lparr>cycles := cycles s + 1\<rparr>) = Some (Inr s')"
  using assms
  by (auto simp: executeInstruction_def Let_def split: option.splits sum.splits)

text \<open>
  Claim C3, as the code has it. Let an instruction execute without a runtime error, and
  let \<open>r\<close> be the unmasked result of its operation on the destination value and the
  operand, the operation being exact (operands and \<open>r\<close> are integers that a JavaScript
  number holds exactly). After ADD, SUB, MUL, DIV, MOD, INC and DEC the flags are those
  of \<open>r\<close> (zero iff \<open>r = 0\<close>, negative iff \<open>r < 0\<close> or bit 15 of \<open>r\<close> is set, carry iff
  \<open>r > 65535\<close> or \<open>r < 0\<close>) and the destination register holds \<open>r\<close> masked to 16 bits.
  After CMP the flags are those of the difference and no register has changed. After
  AND, OR, XOR and SHR the flags are those of \<open>r\<close>. After NOT and SHL the destination
  register holds \<open>r\<close> masked to 16 bits and the flags are those of that masked value,
  not of \<open>r\<close>.
\<close>

theorem flags_and_destination:
  assumes ex: "executeInstruction (Some instr) s = Some (None, s')"
    and parts: "split_parts instr = p0 # ps"
    and op: "op = toUpperCase p0"
  shows
    "(op \<in> set [''ADD'', ''SUB'', ''MUL'', ''DIV'', ''MOD''] \<longrightarrow>
        (\<exists>d v. getRegisterIndex (part (p0 # ps) 1) = Inr d
           \<and> parseValue s (part (p0 # ps) 2) = Inr v
           \<and> (exact_operation op (registers s d) v \<longrightarrow>
                flags s' = flags_of (raw_result op (registers s d) v)
                \<and> registers s' = (registers s)(d := raw_result op (registers s d) v mod 65536))))
   \<and> (op \<in> set [''INC'', ''DEC''] \<longrightarrow>
        (\<exists>d. getRegisterIndex (part (p0 # ps) 1) = Inr d
           \<and> (exact_operation op (registers s d) 0 \<longrightarrow>
                flags s' = flags_of (raw_result op (registers s d) 0)
                \<and> registers s' = (registers s)(d := raw_result op (registers s d) 0 mod 65536))))
   \<and> (op = ''CMP'' \<longrightarrow>
        (\<exists>a b. parseValue s (part (p0 # ps) 1) = Inr a
           \<and> parseValue s (part (p0 # ps) 2) = Inr b
           \<and> registers s' = registers s
           \<and> (exact_operation op a b \<longrightarrow> flags s' = flags_of (raw_result op a b))))
   \<and> (op \<in> set [''AND'', ''OR'', ''XOR'', ''SHR''] \<longrightarrow>
        (\<exists>d v. getRegisterIndex (part (p0 # ps) 1) = Inr d
           \<and> parseValue s (part (p0 # ps) 2) = Inr v
           \<and> (exact_operation op (registers s d) v \<longrightarrow>
                flags s' = flags_of (raw_result op (registers s d) v))))
   \<and> (op = ''NOT'' \<longrightarrow>
        (\<exists>d. getRegisterIndex (part (p0 # ps) 1) = Inr d
           \<and> (exact_operation op (registers s d) 0 \<longrightarrow>
                registers s' = (registers s)(d := raw_result op (registers s d) 0 mod 65536)
                \<and> flags s' = flags_of (raw_result op (registers s d) 0 mod 65536))))
   \<and> (op = ''SHL'' \<longrightarrow>
        (\<exists>d v. getRegisterIndex (part (p0 # ps) 1) = Inr d
           \<and> parseValue s (part (p0 # ps) 2) = Inr v
           \<and> (exact_operation op (registers s d) v \<longrightarrow>
                registers s' = (registers s)(d := raw_result op (registers s d) v mod 65536)
                \<and> flags s' = flags_of (raw_result op (registers s d) v mod 65536))))"
proof -
  let ?s1 = "s\<lparr>cycles := cycles s + 1\<rparr>"
  have k: "exec_op op (p0 # ps) ?s1 = Some (Inr s')"
    using executeInstruction_exec_op [OF ex parts] op by simp
  have r: "registers ?s1 = registers s" by simp
  show ?thesis
  proof (intro conjI impI)
    assume "op \<in> set [''ADD'', ''SUB'', ''MUL'', ''DIV'', ''MOD'']"
    from exec_op_arith [OF this k]
    have "\<exists>d v. getRegisterIndex (part (p0 # ps) 1) = Inr d
           \<and> parseValue s (part (p0 # ps) 2) = Inr v
           \<and> flags s' = flags_of (raw_result op (registers s d) v)
           \<and> registers s' = (registers s)(d := raw_result op (registers s d) v mod 65536)"
      by (simp only: r parseValue_cycles)
    then show "\<exists>d v. getRegisterIndex (part (p0 # ps) 1) = Inr d
           \<and> parseValue s (part (p0 # ps) 2) = Inr v
           \<and> (exact_operation op (registers s d) v \<longrightarrow>
                flags s' = flags_of (raw_result op (registers s d) v)
                \<and> registers s' = (registers s)(d := raw_result op (registers s d) v mod 65536))"
      by blast
  next
    assume "op \<in> set [''INC'', ''DEC'']"
    from exec_op_inc_dec [OF this k]
    have "\<exists>d. getRegisterIndex (part (p0 # ps) 1) = Inr d
           \<and> flags s' = flags_of (raw_result op (registers s d) 0)
           \<and> registers s' = (registers s)(d := raw_result op (registers s d) 0 mod 65536)"
      by (simp only: r)
    then show "\<exists>d. getRegisterIndex (part (p0 # ps) 1) = Inr d
           \<and> (exact_operation op (registers s d) 0 \<longrightarrow>
                flags s' = flags_of (raw_result op (registers s d) 0)
                \<and> registers s' = (registers s)(d := raw_result op (registers s d) 0 mod 65536))"
      by blast
  next
    assume c: "op = ''CMP''"
    from exec_op_cmp [OF k [unfolded c]]
    have "\<exists>a b. parseValue s (part (p0 # ps) 1) = Inr a
           \<and> parseValue s (part (p0 # ps) 2) = Inr b
           \<and> flags s' = flags_of (raw_result op a b) \<and> registers s' = registers s"
      by (simp only: r parseValue_cycles c)
    then show "\<exists>a b. parseValue s (part (p0 # ps) 1) = Inr a
           \<and> parseValue s (part (p0 # ps) 2) = Inr b
           \<and> registers s' = registers s
           \<and> (exact_operation op a b \<longrightarrow> flags s' = flags_of (raw_result op a b))"
      by blast
  next
    assume "op \<in> set [''AND'', ''OR'', ''XOR'', ''SHR'']"
    from exec_op_bitwise [OF this k]
    have "\<exists>d v. getRegisterIndex (part (p0 # ps) 1) = Inr d
           \<and> parseValue s (part (p0 # ps) 2) = Inr v
           \<and> flags s' = flags_of (raw_result op (registers s d) v)"
      by (simp only: r parseValue_cycles)
    then show "\<exists>d v. getRegisterIndex (part (p0 # ps) 1) = Inr d
           \<and> parseValue s (part (p0 # ps) 2) = Inr v
           \<and> (exact_operation op (registers s d) v \<longrightarrow>
                flags s' = flags_of (raw_result op (registers s d) v))"
      by blast
  next
    assume c: "op = ''NOT''"
    from exec_op_not [OF k [unfolded c]]
    have "\<exists>d. getRegisterIndex (part (p0 # ps) 1) = Inr d
           \<and> registers s' = (registers s)(d := raw_result op (registers s d) 0 mod 65536)
           \<and> flags s' = flags_of (raw_result op (registers s d) 0 mod 65536)"
      by (simp only: r c)
    then show "\<exists>d. getRegisterIndex (part (p0 # ps) 1) = Inr d
           \<and> (exact_operation op (registers s d) 0 \<longrightarrow>
                registers s' = (registers s)(d := raw_result op (registers s d) 0 mod 65536)
                \<and> flags s' = flags_of (raw_result op (registers s d) 0 mod 65536))"
      by blast
  next
    assume c: "op = ''SHL''"
    from exec_op_shl [OF k [unfolded c]]
    have "\<exists>d v. getRegisterIndex (part (p0 # ps) 1) = Inr d
           \<and> parseValue s (part (p0 # ps) 2) = Inr v
           \<and> registers s' = (registers s)(d := raw_result op (registers s d) v mod 65536)
           \<and> flags s' = flags_of (raw_result op (registers s d) v mod 65536)"
      by (simp only: r parseValue_cycles c)
    then show "\<exists>d v. getRegisterIndex (part (p0 # ps) 1) = Inr d
           \<and> parseValue s (part (p0 # ps) 2) = Inr v
           \<and> (exact_operation op (registers s d) v \<longrightarrow>
                registers s' = (registers s)(d := raw_result op (registers s d) v mod 65536)
                \<and> flags s' = flags_of (raw_result op (registers s d) v mod 65536))"
      by blast
  qed
qed

theorem flags_and_destination_witness:
  "\<exists>s'. executeInstruction (Some ''ADD R0, 65535'') (new_CPU\<lparr>registers := (\<lambda>i. 0)(0 := 1)\<rparr>)
            = Some (None, s')
        \<and> exact_operation ''ADD'' 1 65535
        \<and> flags s' = \<lparr>zero_f = False, negative_f = False, carry_f = True\<rparr>
        \<and> registers s' 0 = 0"
proof -
  let ?s = "new_CPU\<lparr>registers := (\<lambda>i. 0)(0 := 1)\<rparr>"
  have "(case executeInstruction (Some ''ADD R0, 65535'') ?s of
           Some (None, s') \<Rightarrow> True | _ \<Rightarrow> False)"
    by code_simp
  then obtain s' where ex: "executeInstruction (Some ''ADD R0, 65535'') ?s = Some (None, s')"
    by (auto split: option.splits prod.splits)
  have parts: "split_parts ''ADD R0, 65535'' = ''ADD'' # [''R0'', ''65535'']" by code_simp
  have op: "''ADD'' = toUpperCase ''ADD''" by code_simp
  have d: "getRegisterIndex (part (''ADD'' # [''R0'', ''65535'']) 1) = Inr 0" by code_simp
  have v: "parseValue ?s (part (''ADD'' # [''R0'', ''65535'']) 2) = Inr 65535" by code_simp
  have e: "exact_operation ''ADD'' 1 65535" by code_simp
  have f: "flags_of (raw_result ''ADD'' 1 65535) = \<lparr>zero_f = False, negative_f = False, carry_f = True\<rparr>"
    by code_simp
  have m: "raw_result ''ADD'' 1 65535 mod 65536 = 0" by code_simp
  have g: "registers ?s 0 = 1" by simp
  from flags_and_destination [OF ex parts op] d v
  have "exact_operation ''ADD'' (registers ?s 0) 65535 \<longrightarrow>
        flags s' = flags_of (raw_result ''ADD'' (registers ?s 0) 65535)
        \<and> registers s' = (registers ?s)(0 := raw_result ''ADD'' (registers ?s 0) 65535 mod 65536)"
    by auto
  with e have "flags s' = flags_of (raw_result ''ADD'' 1 65535)
        \<and> registers s' 0 = raw_result ''ADD'' 1 65535 mod 65536"
    by (simp only: g) simp
  with ex e f m show ?thesis by simp
qed

text \<open>
  Claim C3 as stated fails for SHL. With 32768 in \<open>R0\<close>, the unmasked result of
  \<open>SHL R0, 1\<close> is 65536 (an exact operation), whose flags would be: not zero, carry. The code computes the
  flags from the masked value 0 that it stores: zero, no carry.
\<close>

theorem shl_flags_from_masked_result:
  "(case steps 2 (loadProgram [''MOV R0, 32768'', ''SHL R0, 1''] Map.empty new_CPU) of
      Some (Returns u, s) \<Rightarrow>
        raw_result ''SHL'' 32768 1 = 65536 \<and> exact_operation ''SHL'' 32768 1
        \<and> flags_of 65536 = \<lparr>zero_f = False, negative_f = False, carry_f = True\<rparr>
        \<and> flags s = \<lparr>zero_f = True, negative_f = False, carry_f = False\<rparr>
        \<and> registers s 0 = 0
    | _ \<Rightarrow> False)"
  by code_simp

section \<open>An invalid operand\<close>

text \<open>
  Claim C4, at the input where the code departs from it. The operand \<open>foo\<close> of
  \<open>MOV R0, foo\<close> is no register, number or label. \<open>step\<close> and \<open>microStep\<close> evaluate
  the operand in \<open>generateMicroOps\<close>, outside their \<^verbatim>\<open>try\<close>: the call throws
  "Invalid value: foo" to its caller, the CPU is not halted and no error event is
  emitted (the register, PC and SP are as before).
\<close>

theorem invalid_operand_escapes_step:
  "(case step (loadProgram [''MOV R0, foo''] Map.empty new_CPU) of
      Some (Throws e, s) \<Rightarrow>
        e = InvalidValue ''foo'' \<and> halted s = False \<and> list_ex is_error_event (emitted s) = False
        \<and> registers s 0 = 0 \<and> pc s = 0 \<and> sp s = 255
    | _ \<Rightarrow> False)
   \<and> (case microStep (loadProgram [''MOV R0, foo''] Map.empty new_CPU) of
      Some (Throws e, s) \<Rightarrow>
        e = InvalidValue ''foo'' \<and> halted s = False \<and> list_ex is_error_event (emitted s) = False
        \<and> registers s 0 = 0 \<and> pc s = 0 \<and> sp s = 255
    | _ \<Rightarrow> False)"
  by code_simp

section \<open>Starting an operation on a busy Compute Unit\<close>

text \<open>
  Claim C5, as the code has it. \<open>startOperation\<close> called on a busy unit is accepted: it
  cannot throw, the unit stays busy, and the descriptor of the operation in flight is
  replaced by the new one (operation, source, destination, length capped at the compute
  memory size, scalar), with the result register and the element index back at 0; the
  compute memory is untouched. The phase-stepped variant likewise replaces its pending
  descriptor.
\<close>

theorem startOperation_replaces_operation_in_flight:
  assumes "isBusy g" and "busy_p h"
  shows "isBusy (startOperation op src dst len sc g)
       \<and> currentOp (startOperation op src dst len sc g) = Some op
       \<and> srcAddr (startOperation op src dst len sc g) = src
       \<and> dstAddr (startOperation op src dst len sc g) = dst
       \<and> length_g (startOperation op src dst len sc g) = min len VRAM_SIZE
       \<and> scalar (startOperation op src dst len sc g) = sc
       \<and> result (startOperation op src dst len sc g) = 0
       \<and> currentCoreIndex (startOperation op src dst len sc g) = 0
       \<and> vram (startOperation op src dst len sc g) = vram g
       \<and> busy_p (startOperation_p op src dst len sc h)
       \<and> pendingOp (startOperation_p op src dst len sc h)
           = Some \<lparr>op_p = op, srcAddr_pending = src, dstAddr_pending = dst,
                   length_pending = len, scalar_pending = sc\<rparr>"
  by (simp add: startOperation_def startOperation_p_def isBusy_def Let_def)

theorem startOperation_replaces_operation_in_flight_witness:
  "currentOp (startOperation ''VSUB'' 32 48 4 0 (startOperation ''VADD'' 0 16 8 0 gpu_reset))
     = Some ''VSUB''
   \<and> length_g (startOperation ''VSUB'' 32 48 4 0 (startOperation ''VADD'' 0 16 8 0 gpu_reset)) = 4
   \<and> pendingOp (startOperation_p ''VSUB'' 32 48 4 0 (startOperation_p ''VADD'' 0 16 8 0 gpu_reset_p))
     = Some \<lparr>op_p = ''VSUB'', srcAddr_pending = 32, dstAddr_pending = 48,
             length_pending = 4, scalar_pending = 0\<rparr>"
proof -
  have g: "isBusy (startOperation ''VADD'' 0 16 8 0 gpu_reset)" by code_simp
  have h: "busy_p (startOperation_p ''VADD'' 0 16 8 0 gpu_reset_p)" by code_simp
  have m: "min (4::int) VRAM_SIZE = 4" by code_simp
  from startOperation_replaces_operation_in_flight [OF g h, of "''VSUB''" 32 48 4 0] m
  show ?thesis by simp
qed

text \<open>
  Claim C5 as stated fails. A second GEXEC issued while the unit is busy with the
  first returns without error: the CPU is not halted, no error event is emitted, and
  the unit now holds the second operation.
\<close>

theorem second_operation_replaces_first:
  "(case step (loadProgram [''GEXEC VADD, 0, 16, 8'', ''GEXEC VSUB, 32, 48, 4''] Map.empty
                 (setGPU gpu_reset new_CPU)) of
      Some (Returns b, s1) \<Rightarrow>
        map_option isBusy (gpu s1) = Some True
        \<and> map_option currentOp (gpu s1) = Some (Some ''VADD'')
        \<and> (case step s1 of
             Some (Returns b', s2) \<Rightarrow>
               halted s2 = False \<and> list_ex is_error_event (emitted s2) = False
               \<and> map_option isBusy (gpu s2) = Some True
               \<and> map_option currentOp (gpu s2) = Some (Some ''VSUB'')
               \<and> map_option srcAddr (gpu s2) = Some 32
               \<and> map_option length_g (gpu s2) = Some 4
           | _ \<Rightarrow> False)
    | _ \<Rightarrow> False)"
  by code_simp

section \<open>The vector addition example\<close>

text \<open>
  Claim C6. With A = [1..8] at primary addresses \<open>0x00..0x07\<close> and B = [10 x 8] at
  \<open>0x10..0x17\<close>, the instructions GLOAD 0, 0x00, 8; GLOAD 16, 0x10, 8;
  GEXEC VADD, 0, 16, 8; GWAIT all return, and then the destination region
  \<open>16..23\<close> of the compute memory holds [11..18] and the unit reports not busy.
\<close>

theorem vector_add_example:
  "(case steps 4 ((loadProgram vector_add_program Map.empty (setGPU gpu_reset new_CPU))
                    \<lparr>memory := vector_memory\<rparr>) of
      Some (Returns u, s) \<Rightarrow>
        (case gpu s of
           Some g \<Rightarrow>
             map (read_cell (vram g)) [16, 17, 18, 19, 20, 21, 22, 23]
               = [11, 12, 13, 14, 15, 16, 17, 18]
             \<and> isBusy g = False
         | None \<Rightarrow> False)
    | _ \<Rightarrow> False)"
  by code_simp

section \<open>The range of the destination register\<close>

lemma mod_65536_range: "0 \<le> (x::int) mod 65536 \<and> x mod 65536 \<le> 65535"
  using pos_mod_bound [of 65536 x] pos_mod_sign [of 65536 x] by linarith

text \<open>
  The cases that mask the value they store keep the destination within 16 bits,
  whatever the operands.
\<close>

lemma masked_destination_in_range:
  assumes op: "op \<in> set [''ADD'', ''SUB'', ''MUL'', ''DIV'', ''MOD'', ''INC'', ''DEC'', ''NOT'', ''SHL'']"
    and ex: "exec_op op parts s = Some (Inr s')"
  shows "\<exists>d. getRegisterIndex (part parts 1) = Inr d
           \<and> 0 \<le> registers s' d \<and> registers s' d \<le> 65535"
proof -
  from op have "op \<in> set [''ADD'', ''SUB'', ''MUL'', ''DIV'', ''MOD'']
      \<or> op \<in> set [''INC'', ''DEC''] \<or> op = ''NOT'' \<or> op = ''SHL''"
    by simp
  then show ?thesis
  proof (elim disjE)
    assume arith: "op \<in> set [''ADD'', ''SUB'', ''MUL'', ''DIV'', ''MOD'']"
    from exec_op_arith [OF arith ex] obtain d
      where "getRegisterIndex (part parts 1) = Inr d" "\<exists>x. registers s' = (registers s)(d := x mod 65536)"
      by blast
    then show ?thesis using mod_65536_range by fastforce
  next
    assume incdec: "op \<in> set [''INC'', ''DEC'']"
    from exec_op_inc_dec [OF incdec ex] obtain d
      where "getRegisterIndex (part parts 1) = Inr d" "\<exists>x. registers s' = (registers s)(d := x mod 65536)"
      by blast
    then show ?thesis using mod_65536_range by fastforce
  next
    assume not: "op = ''NOT''"
    from exec_op_not [OF ex [unfolded not]] obtain d
      where "getRegisterIndex (part parts 1) = Inr d" "\<exists>x. registers s' = (registers s)(d := x mod 65536)"
      by blast
    then show ?thesis using mod_65536_range by fastforce
  next
    assume shl: "op = ''SHL''"
    from exec_op_shl [OF ex [unfolded shl]] obtain d
      where "getRegisterIndex (part parts 1) = Inr d" "\<exists>x. registers s' = (registers s)(d := x mod 65536)"
      by blast
    then show ?thesis using mod_65536_range by fastforce
  qed
qed

text \<open>
  The logical cases AND, OR and XOR are not among them: \<open>OR R0, 65536\<close> on the reset
  state returns without error and leaves 65536 in \<open>R0\<close>.
\<close>

lemma or_stores_unmasked:
  "(case step (loadProgram [''OR R0, 65536''] Map.empty new_CPU) of
      Some (Returns b, s) \<Rightarrow>
        registers s 0 = 65536 \<and> halted s = False \<and> list_ex is_error_event (emitted s) = False
    | _ \<Rightarrow> False)"
  by code_simp

text \<open>
  Claim C7. Let an arithmetic instruction (ADD, SUB, MUL, DIV, MOD, INC or DEC) execute
  without a runtime error. Its first operand names the destination register, and the
  value of that register after the execution lies in \<open>[0, 65535]\<close>.
\<close>

theorem arithmetic_destination_in_range:
  assumes ex: "executeInstruction (Some instr) s = Some (None, s')"
    and parts: "split_parts instr = p0 # ps"
    and op: "toUpperCase p0 \<in> set [''ADD'', ''SUB'', ''MUL'', ''DIV'', ''MOD'', ''INC'', ''DEC'']"
  shows "\<exists>d. getRegisterIndex (part (p0 # ps) 1) = Inr d
           \<and> 0 \<le> registers s' d \<and> registers s' d \<le> 65535"
proof -
  from op have "toUpperCase p0
      \<in> set [''ADD'', ''SUB'', ''MUL'', ''DIV'', ''MOD'', ''INC'', ''DEC'', ''NOT'', ''SHL'']"
    by (elim rev_subsetD) (simp add: subset_iff)
  from masked_destination_in_range [OF this executeInstruction_exec_op [OF ex parts]]
  show ?thesis .
qed

theorem arithmetic_destination_in_range_witness:
  "\<exists>s'. executeInstruction (Some ''MUL R0, 65535'') (new_CPU\<lparr>registers := (\<lambda>i. 0)(0 := 65535)\<rparr>)
            = Some (None, s')
        \<and> 0 \<le> registers s' 0 \<and> registers s' 0 \<le> 65535"
proof -
  let ?s = "new_CPU\<lparr>registers := (\<lambda>i. 0)(0 := 65535)\<rparr>"
  have "(case executeInstruction (Some ''MUL R0, 65535'') ?s of
           Some (None, s') \<Rightarrow> True | _ \<Rightarrow> False)"
    by code_simp
  then obtain s' where ex: "executeInstruction (Some ''MUL R0, 65535'') ?s = Some (None, s')"
    by (auto split: option.splits prod.splits)
  have parts: "split_parts ''MUL R0, 65535'' = ''MUL'' # [''R0'', ''65535'']" by code_simp
  have op: "toUpperCase ''MUL''
      \<in> set [''ADD'', ''SUB'', ''MUL'', ''DIV'', ''MOD'', ''INC'', ''DEC'']"
    by code_simp
  have d: "getRegisterIndex (part (''MUL'' # [''R0'', ''65535'']) 1) = Inr 0" by code_simp
  from arithmetic_destination_in_range [OF ex parts op] d
  have "0 \<le> registers s' 0 \<and> registers s' 0 \<le> 65535"
    by auto
  with ex show ?thesis by simp
qed

section \<open>Registers after data movement\<close>

text \<open>
  Claim C8, at the input where the code departs from it. From the reset state,
  \<open>PUSH 70000\<close> followed by \<open>POP R0\<close> returns without error and leaves 70000 in
  \<open>R0\<close>: PUSH stores its operand unmasked and POP copies the cell unmasked.
\<close>

theorem push_pop_leaves_register_out_of_range:
  "(case steps 2 (loadProgram [''PUSH 70000'', ''POP R0''] Map.empty new_CPU) of
      Some (Returns u, s) \<Rightarrow>
        registers s 0 = 70000 \<and> halted s = False \<and> list_ex is_error_event (emitted s) = False
    | _ \<Rightarrow> False)"
  by code_simp

section \<open>Duplicate labels in pass 1\<close>

lemma label_match_nonempty: "label_match t = Some (name, rest) \<Longrightarrow> t \<noteq> []"
  by (auto simp: label_match_def Let_def split: if_splits)

text \<open>
  Claim C9, as the code has it. When the comment-stripped, trimmed text of a line
  starts with a label \<open>name:\<close> and \<open>name\<close> is already recorded, pass 1 appends the
  duplicate-label diagnostic for that line and goes on to the next line: the label
  table, the cleaned lines and the instruction index stay as they were, so the
  instruction text that follows the label on that line is dropped as well.
\<close>

theorem duplicate_label_drops_the_line:
  assumes "label_match (trim (hd (split_on (\<lambda>c. c = CHR '';'') ln))) = Some (name, rest)"
    and "labels_a st name = Some k"
  shows "pass1_line i ln st =
           st\<lparr>errors := errors st @ [\<lparr>line = i + 1, message = ''Duplicate label: '' @ name\<rparr>]\<rparr>"
  using assms label_match_nonempty [OF assms(1)]
  by (simp add: pass1_line_def Let_def label_taken_def)

theorem duplicate_label_drops_the_line_witness:
  "pass1_line 1 ''x: INC R0''
     \<lparr>labels_a = [''x'' \<mapsto> 0], cleanedLines = [\<lparr>cl_line = 1, content = ''NOP''\<rparr>],
      errors = [], instructionIndex = 1\<rparr>
   = \<lparr>labels_a = [''x'' \<mapsto> 0], cleanedLines = [\<lparr>cl_line = 1, content = ''NOP''\<rparr>],
      errors = [\<lparr>line = 2, message = ''Duplicate label: x''\<rparr>], instructionIndex = 1\<rparr>"
proof -
  have m: "label_match (trim (hd (split_on (\<lambda>c. c = CHR '';'') ''x: INC R0''))) = Some (''x'', '' INC R0'')"
    by code_simp
  have l: "[''x'' \<mapsto> (0::nat)] ''x'' = Some 0" by simp
  from duplicate_label_drops_the_line [of "''x: INC R0''" "''x''" "'' INC R0''"
      "\<lparr>labels_a = [''x'' \<mapsto> 0], cleanedLines = [\<lparr>cl_line = 1, content = ''NOP''\<rparr>],
        errors = [], instructionIndex = 1\<rparr>" 0 1, OF m]
  show ?thesis by simp
qed

text \<open>
  Claim C9 as stated fails. For the source \<open>x: NOP\<close>, \<open>x: INC R0\<close> pass 1 records the
  diagnostic for line 2 and keeps only \<open>NOP\<close> among the cleaned lines: the
  instruction text \<open>INC R0\<close> of the line with the duplicate label is not kept.
\<close>

theorem duplicate_label_line_not_kept:
  "cleanedLines (pass1 (''x: NOP'' @ [CHR 0x0A] @ ''x: INC R0''))
     = [\<lparr>cl_line = 1, content = ''NOP''\<rparr>]
   \<and> errors (pass1 (''x: NOP'' @ [CHR 0x0A] @ ''x: INC R0''))
     = [\<lparr>line = 2, message = ''Duplicate label: x''\<rparr>]"
  by code_simp

section \<open>What sets \<open>halted\<close>\<close>

lemma executeInstruction_pipe:
  assumes "executeInstruction i s = Some (e, s1)"
  shows "s1 = with_pipe s s1"
proof -
  have "with_pipe s s = s" by (rule with_pipe_same) simp
  with executeInstruction_with_pipe [of i s s] assms show ?thesis by simp
qed

lemma executeInstruction_emitted:
  assumes "executeInstruction i s = Some (e, s1)"
  shows "emitted s1 = emitted s"
proof -
  from executeInstruction_pipe [OF assms]
  have "emitted s1 = emitted (with_pipe s s1)" by (rule arg_cong [where f = emitted])
  also have "\<dots> = emitted s" by (simp add: with_pipe_def)
  finally show ?thesis .
qed

lemma executeInstruction_instructionRegister:
  assumes "executeInstruction i s = Some (e, s1)"
  shows "instructionRegister s1 = instructionRegister s"
proof -
  from executeInstruction_pipe [OF assms]
  have "instructionRegister s1 = instructionRegister (with_pipe s s1)"
    by (rule arg_cong [where f = instructionRegister])
  also have "\<dots> = instructionRegister s" by (simp add: with_pipe_def)
  finally show ?thesis .
qed

lemma exec_op_halted:
  assumes "exec_op op parts s = Some (Inr s2)" and "op \<noteq> ''HALT''" and "op \<noteq> ''HLT''"
  shows "halted s2 = halted s"
proof (cases "op \<in> set all_ops")
  case False
  with assms show ?thesis by (simp add: exec_op_def all_ops_def)
next
  case True
  with assms show ?thesis
    apply (simp add: all_ops_def)
    apply (elim disjE)
    apply (auto simp: exec_op_def jump_if_def bindE_def advance_def write_reg_def setFlags_def
             Let_def split: sum.splits option.splits if_splits)
    done
qed

lemma executeInstruction_halted:
  assumes ex: "executeInstruction i s = Some (None, s2)" and h: "\<not> halted s" "halted s2"
  shows "opcode_of i \<in> set [Some ''HALT'', Some ''HLT'']"
proof (cases i)
  case None
  with ex show ?thesis by (simp add: executeInstruction_def)
next
  case (Some instr)
  show ?thesis
  proof (cases "split_parts instr")
    case Nil
    with Some ex show ?thesis by (simp add: executeInstruction_def)
  next
    case (Cons p0 ps)
    with Some ex have "exec_op (toUpperCase p0) (p0 # ps) (s\<lparr>cycles := cycles s + 1\<rparr>)
                         = Some (Inr s2)"
      by (auto simp: executeInstruction_def Let_def split: option.splits sum.splits)
    from exec_op_halted [OF this] h
    have "toUpperCase p0 = ''HALT'' \<or> toUpperCase p0 = ''HLT''" by auto
    with Some Cons show ?thesis by (auto simp: opcode_of_def)
  qed
qed

lemma try_execute_cases:
  assumes "try_execute i f s = Some (ok, s')"
  shows "(ok \<and> (\<exists>s1. executeInstruction i s = Some (None, s1) \<and> s' = f s1))
       \<or> (\<not> ok \<and> (\<exists>e s1. executeInstruction i s = Some (Some e, s1)
              \<and> s' = (emit (EvError (getState s1) i e) s1)\<lparr>halted := True\<rparr>))"
  using assms by (auto simp: try_execute_def split: option.splits prod.splits)

lemma step_sets_halted:
  assumes nh: "\<not> halted s" and run: "pc s < int (length (program s))"
    and st: "step s = Some (c, s')" and h: "halted s'"
  shows "opcode_of (program_at s) \<in> set [Some ''HALT'', Some ''HLT'']
         \<or> list_ex is_error_event (new_events s s')"
proof (cases "generateMicroOps s (program_at s)")
  case (Inl e)
  from step_running [OF nh run Inl] st h nh show ?thesis by auto
next
  case (Inr ops)
  let ?s1 = "s\<lparr>previousRegisters := registers s, instructionRegister := program_at s,
                 microOps := ops\<rparr>"
  from step_running [OF nh run Inr] st obtain ok where
    t: "try_execute (program_at s) (step_success (program_at s)) ?s1 = Some (ok, s')"
    by (auto split: option.splits prod.splits bool.splits)
  from try_execute_cases [OF t] show ?thesis
  proof (elim disjE conjE exE)
    fix s1
    assume ex: "executeInstruction (program_at s) ?s1 = Some (None, s1)"
      and s': "s' = step_success (program_at s) s1"
    from s' h have "halted s1" by (simp add: step_success_def Let_def emit_def)
    from executeInstruction_halted [OF ex _ this] nh show ?thesis by simp
  next
    fix e s1
    assume ex: "executeInstruction (program_at s) ?s1 = Some (Some e, s1)"
      and s': "s' = (emit (EvError (getState s1) (program_at s) e) s1)\<lparr>halted := True\<rparr>"
    from executeInstruction_emitted [OF ex] s'
    have "new_events s s' = [EvError (getState s1) (program_at s) e]"
      by (simp add: new_events_def emit_def)
    then show ?thesis by simp
  qed
qed

lemma start_instruction_keeps:
  "start_instruction s = Inl (e, s1) \<Longrightarrow> halted s1 = halted s"
  "start_instruction s = Inr s2 \<Longrightarrow> halted s2 = halted s \<and> emitted s2 = emitted s"
  by (auto simp: start_instruction_def Let_def split: if_splits sum.splits)

lemma perform_micro_sets_halted:
  assumes nh: "\<not> halted s2" and pm: "perform_micro s2 = Some (c, s')" and h: "halted s'"
  shows "opcode_of (instructionRegister s') \<in> set [Some ''HALT'', Some ''HLT'']
         \<or> list_ex is_error_event (new_events s2 s')"
proof (cases "Suc (currentMicroOpIndex s2) < length (microOps s2)")
  case True
  from perform_micro_mid [OF True] pm h nh show ?thesis
    by (auto simp: same_arch_def)
next
  case False
  define microOp where "microOp = microOps s2 ! currentMicroOpIndex s2"
  define s4 where "s4 = (emit (EvMicro
      (getState (s2\<lparr>currentStage := stage microOp,
                    currentMicroOpIndex := currentMicroOpIndex s2 + 1\<rparr>))
      (instructionRegister s2) microOp)
      (s2\<lparr>currentStage := stage microOp, currentMicroOpIndex := currentMicroOpIndex s2 + 1\<rparr>))
      \<lparr>previousRegisters := registers s2\<rparr>"
  have h4: "\<not> halted s4" "length (emitted s4) = Suc (length (emitted s2))"
    "instructionRegister s4 = instructionRegister s2"
    using nh by (simp_all add: s4_def emit_def)
  from False pm obtain ok where
    t: "try_execute (instructionRegister s2) micro_success s4 = Some (ok, s')"
    by (auto simp: perform_micro_def Let_def s4_def microOp_def emit_def
             split: option.splits prod.splits)
  from try_execute_cases [OF t] show ?thesis
  proof (elim disjE conjE exE)
    fix s1
    assume ex: "executeInstruction (instructionRegister s2) s4 = Some (None, s1)"
      and s': "s' = micro_success s1"
    from s' h have hs1: "halted s1"
      by (simp add: micro_success_def Let_def emit_def split: if_splits)
    from s' have "instructionRegister s' = instructionRegister s1"
      by (simp add: micro_success_def Let_def emit_def)
    with executeInstruction_instructionRegister [OF ex] h4
    have "instructionRegister s' = instructionRegister s2" by simp
    with executeInstruction_halted [OF ex h4(1) hs1] show ?thesis by simp
  next
    fix e s1
    assume ex: "executeInstruction (instructionRegister s2) s4 = Some (Some e, s1)"
      and s': "s' = (emit (EvError (getState s1) (instructionRegister s2) e) s1)\<lparr>halted := True\<rparr>"
    from executeInstruction_emitted [OF ex] h4 s'
    have "length (emitted s1) = Suc (length (emitted s2))"
      "emitted s' = emitted s1 @ [EvError (getState s1) (instructionRegister s2) e]"
      by (simp_all add: emit_def)
    then have "list_ex is_error_event (new_events s2 s')"
      by (simp add: new_events_def list_ex_iff)
    then show ?thesis by simp
  qed
qed

text \<open>
  Claim C10, as the code has it. A call of \<open>step\<close> or of \<open>microStep\<close> on a CPU that is
  not halted leaves it halted only if the program counter had run past the end of the
  program when the call was made, or the instruction the call executed is HALT or HLT,
  or the call emitted an error event.
\<close>

theorem halted_only_by_halt_error_or_end:
  assumes nh: "\<not> halted s"
  shows "(\<forall>c s'. step s = Some (c, s') \<and> halted s' \<longrightarrow>
            int (length (program s)) \<le> pc s
            \<or> opcode_of (program_at s) \<in> set [Some ''HALT'', Some ''HLT'']
            \<or> list_ex is_error_event (new_events s s'))
       \<and> (\<forall>c s'. microStep s = Some (c, s') \<and> halted s' \<longrightarrow>
            int (length (program s)) \<le> pc s
            \<or> opcode_of (instructionRegister s') \<in> set [Some ''HALT'', Some ''HLT'']
            \<or> list_ex is_error_event (new_events s s'))"
proof (intro conjI allI impI)
  fix c s'
  assume a: "step s = Some (c, s') \<and> halted s'"
  show "int (length (program s)) \<le> pc s
            \<or> opcode_of (program_at s) \<in> set [Some ''HALT'', Some ''HLT'']
            \<or> list_ex is_error_event (new_events s s')"
  proof (cases "int (length (program s)) \<le> pc s")
    case True
    then show ?thesis by simp
  next
    case False
    then have "pc s < int (length (program s))" by simp
    from step_sets_halted [OF nh this] a show ?thesis by blast
  qed
next
  fix c s'
  assume a: "microStep s = Some (c, s') \<and> halted s'"
  show "int (length (program s)) \<le> pc s
            \<or> opcode_of (instructionRegister s') \<in> set [Some ''HALT'', Some ''HLT'']
            \<or> list_ex is_error_event (new_events s s')"
  proof (cases "int (length (program s)) \<le> pc s")
    case True
    then show ?thesis by simp
  next
    case False
    then have run: "pc s < int (length (program s))" by simp
    show ?thesis
    proof (cases "start_instruction s")
      case (Inl p)
      obtain e s1 where p: "p = (e, s1)" by (cases p)
      with Inl start_instruction_keeps(1) [of s e s1] microStep_running [OF nh run] a nh
      show ?thesis by simp
    next
      case (Inr s2)
      from start_instruction_keeps(2) [OF Inr] nh
      have k: "\<not> halted s2" "emitted s2 = emitted s" by simp_all
      from Inr microStep_running [OF nh run] a
      have "perform_micro s2 = Some (c, s')" by simp
      from perform_micro_sets_halted [OF k(1) this] a k(2) show ?thesis
        by (simp add: new_events_def)
    qed
  qed
qed

theorem halted_only_by_halt_error_or_end_witness:
  "\<exists>c s'. step (loadProgram [''DIV R0, 0''] Map.empty new_CPU) = Some (c, s') \<and> halted s'
     \<and> list_ex is_error_event (new_events (loadProgram [''DIV R0, 0''] Map.empty new_CPU) s')"
proof -
  let ?s = "loadProgram [''DIV R0, 0''] Map.empty new_CPU"
  have nh: "\<not> halted ?s" by code_simp
  have r: "(case step ?s of Some (c, s') \<Rightarrow> halted s' | None \<Rightarrow> False)" by code_simp
  then obtain c s' where st: "step ?s = Some (c, s')" and h: "halted s'"
    by (auto split: option.splits)
  have n1: "\<not> int (length (program ?s)) \<le> pc ?s" by code_simp
  have n2: "opcode_of (program_at ?s) \<notin> set [Some ''HALT'', Some ''HLT'']" by code_simp
  from halted_only_by_halt_error_or_end [OF nh] st h n1 n2
  have "list_ex is_error_event (new_events ?s s')" by blast
  with st h show ?thesis by blast
qed

text \<open>
  Claim C10 as stated fails. The program consisting of \<open>NOP\<close> holds no halt opcode and
  raises no error, and yet the second \<open>step\<close>, like the fourth \<open>microStep\<close>, finds the
  program counter past the end and sets \<open>halted\<close>.
\<close>

theorem halted_by_running_off_the_end:
  "(case steps 2 (loadProgram [''NOP''] Map.empty new_CPU) of
      Some (Returns u, s) \<Rightarrow> halted s \<and> list_ex is_error_event (emitted s) = False
    | _ \<Rightarrow> False)
   \<and> (case microSteps 4 (loadProgram [''NOP''] Map.empty new_CPU) of
      Some (Returns u, s) \<Rightarrow> halted s \<and> list_ex is_error_event (emitted s) = False
    | _ \<Rightarrow> False)"
  by code_simp

end
